theory Spec2Isabelle
  imports Complex_Main "HOL-Library.Word" "HOL-Library.Signed_Division"
begin

chapter \<open>ethspeed: the transfer handlers, the statistics and the client of main.go\<close>

text \<open>
  The program is one Go file.  Its server answers \<^verbatim>\<open>GET /__down?bytes=N\<close> with \<open>N\<close>
  bytes and \<^verbatim>\<open>POST /__up?bytes=N\<close> by reading the body, and keeps counters; its client
  times such requests and prints rates.  Each Go function below is a HOL function of the
  same name.  What a function does to the world is explicit: a handler takes the
  process-wide state and the response writer and returns both; the connection, the
  clock, the peer of the client and float64 arithmetic are parameters.  The first part
  holds the definitions, the second the proofs.
\<close>

section \<open>Integers, constants and the strconv functions used by main.go\<close>

text \<open>
  Go's \<^verbatim>\<open>int64\<close> is a 64-bit word read in two's complement: \<open>+\<close>, \<open>-\<close> and \<open>*\<close> wrap,
  comparisons are the signed ones (\<open><s\<close>, \<open>\<le>s\<close>).  Go's \<^verbatim>\<open>int\<close> has 64 bits on the
  platforms the program is built for, and is modelled by the same type.
\<close>

type_synonym int64 = "64 word"

text \<open>The constant block of main.go (lines 23-27).\<close>

definition downloadBufferSize :: nat where
  "downloadBufferSize = 1024 * 1024"

definition minBytes :: int64 where
  "minBytes = 1 * 1024 * 1024"

definition maxBytes :: int64 where
  "maxBytes = 10 * 1024 * 1024 * 1024"

definition directionDown :: string where "directionDown = ''down''"
definition directionUp :: string where "directionUp = ''up''"
definition directionBoth :: string where "directionBoth = ''both''"
definition modeClient :: string where "modeClient = ''client''"
definition modeServer :: string where "modeServer = ''server''"

subsection \<open>strconv.FormatInt and the verb \<^verbatim>\<open>%d\<close>, base 10\<close>

definition digitChar :: "nat \<Rightarrow> char" where
  "digitChar d = char_of (48 + d)"

function digits10 :: "nat \<Rightarrow> string" where
  "digits10 n = (if n < 10 then [digitChar n] else digits10 (n div 10) @ [digitChar (n mod 10)])"
  by pat_completeness auto
termination
  by (relation "measure (\<lambda>n. n)") auto

declare digits10.simps [simp del]

definition FormatInt :: "int64 \<Rightarrow> string" where
  "FormatInt i =
     (if sint i < 0 then CHR ''-'' # digits10 (nat (- sint i)) else digits10 (nat (sint i)))"

subsection \<open>strconv.ParseInt(s, 10, 64)\<close>

text \<open>
  The standard library's parser, as its documentation and source describe it for base 10
  and 64 bits: an optional sign, then one or more decimal digits (no underscores, no
  spaces); a value outside the int64 range is a range error.  The digit loop is
  \<^verbatim>\<open>ParseUint\<close>'s: it stops with a range error as soon as the accumulated value leaves
  the uint64 range, and with a syntax error at the first character that is no digit.
\<close>

datatype strconv_err = ErrSyntax | ErrRange

datatype NumError = NumError (Func: string) (Num: string) (Err: strconv_err)

definition isDigit :: "char \<Rightarrow> bool" where
  "isDigit c = (48 \<le> (of_char c :: nat) \<and> (of_char c :: nat) \<le> 57)"

definition digitVal :: "char \<Rightarrow> nat" where
  "digitVal c = of_char c - 48"

definition maxUint64 :: nat where
  "maxUint64 = 2 ^ 64 - 1"

fun parseDigits :: "nat \<Rightarrow> string \<Rightarrow> strconv_err + nat" where
  "parseDigits n [] = Inr n"
| "parseDigits n (c # cs) =
     (if \<not> isDigit c then Inl ErrSyntax
      else if n \<ge> maxUint64 div 10 + 1 then Inl ErrRange
      else if n * 10 + digitVal c > maxUint64 then Inl ErrRange
      else parseDigits (n * 10 + digitVal c) cs)"

definition ParseUint :: "string \<Rightarrow> strconv_err + nat" where
  "ParseUint s = (if s = [] then Inl ErrSyntax else parseDigits 0 s)"

definition ParseInt :: "string \<Rightarrow> NumError + int64" where
  "ParseInt s0 =
     (if s0 = [] then Inl (NumError ''ParseInt'' s0 ErrSyntax)
      else
        let neg = (hd s0 = CHR ''-'');
            s = (if hd s0 = CHR ''+'' \<or> hd s0 = CHR ''-'' then tl s0 else s0)
        in case ParseUint s of
             Inl e \<Rightarrow> Inl (NumError ''ParseInt'' s0 e)
           | Inr un \<Rightarrow>
               if \<not> neg \<and> un \<ge> 2 ^ 63 then Inl (NumError ''ParseInt'' s0 ErrRange)
               else if neg \<and> un > 2 ^ 63 then Inl (NumError ''ParseInt'' s0 ErrRange)
               else Inr (if neg then - word_of_nat un else word_of_nat un))"

text \<open>
  The text of a \<^verbatim>\<open>*NumError\<close>.  \<^verbatim>\<open>strconv.Quote\<close> consults Unicode tables that are not
  part of the program; it is a parameter \<open>quote\<close> of everything that prints such an error.
\<close>

definition strconv_err_text :: "strconv_err \<Rightarrow> string" where
  "strconv_err_text e = (case e of ErrSyntax \<Rightarrow> ''invalid syntax'' | ErrRange \<Rightarrow> ''value out of range'')"

definition NumError_Error :: "(string \<Rightarrow> string) \<Rightarrow> NumError \<Rightarrow> string" where
  "NumError_Error quote e =
     ''strconv.'' @ Func e @ '': parsing '' @ quote (Num e) @ '': '' @ strconv_err_text (Err e)"

section \<open>The request and parseBytes\<close>

text \<open>
  \<^verbatim>\<open>url.Values\<close> is a map from a key to the list of its values; \<^verbatim>\<open>Get\<close> returns the
  first value, or the empty string when the key has none.
\<close>

type_synonym Values = "string \<rightharpoonup> string list"

definition Values_Get :: "Values \<Rightarrow> string \<Rightarrow> string" where
  "Values_Get v key = (case v key of None \<Rightarrow> [] | Some [] \<Rightarrow> [] | Some (x # _) \<Rightarrow> x)"

text \<open>
  What the handlers read of a \<^verbatim>\<open>*http.Request\<close>: the method, the parsed query, the
  remote address, and the body.  Reading the body to its end delivers \<open>Body\<close>; the read
  then ends normally (\<open>BodyErr = None\<close>) or with an error.
\<close>

record Request =
  Method :: string
  Query :: Values
  RemoteAddr :: string
  Body :: string
  BodyErr :: "string option"

text \<open>
  parseBytes (main.go 555-572).  An error is its message.  \<^verbatim>\<open>formatBytes(minBytes)\<close> and
  \<^verbatim>\<open>formatBytes(maxBytes)\<close> are the constant texts \<^verbatim>\<open>1.00 MB\<close> and \<^verbatim>\<open>10.00 GB\<close>
  (the quotients 1 and 10 are exact in float64).
\<close>

definition parseBytes :: "(string \<Rightarrow> string) \<Rightarrow> Request \<Rightarrow> string + int64" where
  "parseBytes quote r =
     (let bytesParam = Values_Get (Query r) ''bytes'' in
      if bytesParam = [] then Inl ''missing 'bytes' parameter''
      else case ParseInt bytesParam of
             Inl err \<Rightarrow> Inl (''invalid 'bytes' parameter: '' @ NumError_Error quote err)
           | Inr numBytes \<Rightarrow>
               if numBytes <s minBytes \<or> maxBytes <s numBytes
               then Inl ''bytes must be between 1.00 MB and 10.00 GB''
               else Inr numBytes)"

section \<open>The response writer\<close>

text \<open>
  What a handler does to its \<^verbatim>\<open>http.ResponseWriter\<close>: the header map, the status line
  (sent by the first \<^verbatim>\<open>WriteHeader\<close>, or as 200 by the first \<^verbatim>\<open>Write\<close>), and the
  sequence of \<^verbatim>\<open>Write\<close> calls.  The connection is part of the writer: \<open>ConnErr w k\<close> is
  the error of the \<open>k\<close>-th \<^verbatim>\<open>Write\<close> call (counted from 0), \<open>None\<close> when the call
  succeeds.  \<open>Written\<close> lists the payloads of the calls that succeeded.
\<close>

record ResponseWriter =
  Header :: "string \<rightharpoonup> string list"
  StatusCode :: "nat option"
  Written :: "string list"
  WriteCalls :: nat
  ConnErr :: "nat \<Rightarrow> string option"

definition Header_Set :: "ResponseWriter \<Rightarrow> string \<Rightarrow> string \<Rightarrow> ResponseWriter" where
  "Header_Set w key val = w\<lparr>Header := (Header w)(key \<mapsto> [val])\<rparr>"

definition Header_Del :: "ResponseWriter \<Rightarrow> string \<Rightarrow> ResponseWriter" where
  "Header_Del w key = w\<lparr>Header := (Header w)(key := None)\<rparr>"

definition WriteHeader :: "ResponseWriter \<Rightarrow> nat \<Rightarrow> ResponseWriter" where
  "WriteHeader w code = (if StatusCode w = None then w\<lparr>StatusCode := Some code\<rparr> else w)"

definition Write :: "ResponseWriter \<Rightarrow> string \<Rightarrow> ResponseWriter \<times> string option" where
  "Write w p =
     (let w1 = WriteHeader w 200;
          w2 = w1\<lparr>WriteCalls := WriteCalls w1 + 1\<rparr>
      in case ConnErr w (WriteCalls w) of
           Some err \<Rightarrow> (w2, Some err)
         | None \<Rightarrow> (w2\<lparr>Written := Written w2 @ [p]\<rparr>, None))"

text \<open>\<^verbatim>\<open>http.Error\<close> of net/http: it replaces the content headers, sends the status and
  prints the message and a newline, ignoring the result of the write.\<close>

definition http_Error :: "ResponseWriter \<Rightarrow> string \<Rightarrow> nat \<Rightarrow> ResponseWriter" where
  "http_Error w msg code =
     (let w1 = Header_Del w ''Content-Length'';
          w2 = Header_Set w1 ''Content-Type'' ''text/plain; charset=utf-8'';
          w3 = Header_Set w2 ''X-Content-Type-Options'' ''nosniff'';
          w4 = WriteHeader w3 code
      in fst (Write w4 (msg @ [CHR 0x0A])))"

definition StatusMethodNotAllowed :: nat where "StatusMethodNotAllowed = 405"
definition StatusBadRequest :: nat where "StatusBadRequest = 400"
definition StatusInternalServerError :: nat where "StatusInternalServerError = 500"
definition StatusOK :: nat where "StatusOK = 200"

section \<open>Server statistics\<close>

text \<open>
  ServerStats (main.go 61-72) without its mutex: one handler call is modelled as one
  function from the statistics before the call to the statistics after it.  A
  \<^verbatim>\<open>time.Time\<close> is an instant, counted in nanoseconds.
\<close>

type_synonym Time = int

record ServerStats =
  totalDownloads :: int64
  totalUploads :: int64
  totalBytesDown :: int64
  totalBytesUp :: int64
  totalConnections :: int64
  startTime :: Time
  lastRequestTime :: Time
  peakConcurrent :: int64
  currentConcurrent :: int64

text \<open>
  The lines of \<^verbatim>\<open>logger.Printf\<close>, each with the values it prints (the layout, the
  time stamp and \<^verbatim>\<open>formatBytes\<close>' rounding to two decimals are fmt's and log's).
\<close>

datatype log_entry =
    DownloadWriteError string string
  | DownloadLog string int64
  | UploadReadError string string
  | UploadWarning string int64 int64
  | UploadLog string int64

text \<open>The process-wide variables \<^verbatim>\<open>stats\<close> and \<^verbatim>\<open>logger\<close> (main.go 74-85).\<close>

record Process =
  stats :: ServerStats
  logged :: "log_entry list"

definition Printf :: "Process \<Rightarrow> log_entry \<Rightarrow> Process" where
  "Printf srv e = srv\<lparr>logged := logged srv @ [e]\<rparr>"

subsection \<open>sync/atomic on the two concurrency counters\<close>

definition AddInt64_currentConcurrent :: "ServerStats \<Rightarrow> int64 \<Rightarrow> ServerStats" where
  "AddInt64_currentConcurrent s delta = s\<lparr>currentConcurrent := currentConcurrent s + delta\<rparr>"

definition CompareAndSwapInt64_peakConcurrent ::
  "ServerStats \<Rightarrow> int64 \<Rightarrow> int64 \<Rightarrow> ServerStats \<times> bool" where
  "CompareAndSwapInt64_peakConcurrent s old new =
     (if peakConcurrent s = old then (s\<lparr>peakConcurrent := new\<rparr>, True) else (s, False))"

text \<open>
  The loop of lines 217-219 (and 273-275):
  \<^verbatim>\<open>for current > peak && !CAS(&peak, peak, current) { peak = Load(&peak) }\<close>.
\<close>

function peakLoop :: "ServerStats \<Rightarrow> int64 \<Rightarrow> int64 \<Rightarrow> ServerStats" where
  "peakLoop s current peak =
     (if peak <s current then
        (if snd (CompareAndSwapInt64_peakConcurrent s peak current)
         then fst (CompareAndSwapInt64_peakConcurrent s peak current)
         else peakLoop (fst (CompareAndSwapInt64_peakConcurrent s peak current)) current
                (peakConcurrent (fst (CompareAndSwapInt64_peakConcurrent s peak current))))
      else s)"
  by pat_completeness auto
termination
  by (relation "measure (\<lambda>(s, current, peak). if peakConcurrent s = peak then 0 else 1)")
     (auto simp: CompareAndSwapInt64_peakConcurrent_def split: if_splits)

declare peakLoop.simps [simp del]

text \<open>Lines 214-219: load both counters, then run the loop.\<close>

definition updatePeak :: "ServerStats \<Rightarrow> ServerStats" where
  "updatePeak s = peakLoop s (currentConcurrent s) (peakConcurrent s)"

section \<open>The transfer handlers\<close>

text \<open>
  What one handler call leaves behind: the process-wide state, the response, and the
  number of bytes it consumed from the request body.
\<close>

record Outcome =
  server :: Process
  response :: ResponseWriter
  bodyRead :: nat

subsection \<open>downloadHandler (main.go 198-251)\<close>

text \<open>
  The streaming loop of lines 228-241.  \<open>buffer\<close> is the slice, \<open>remaining\<close> the counter.
  The result is the writer and the error of the write that ended the loop early, if any.
  The slice expression \<^verbatim>\<open>buffer[:writeSize]\<close> is reached only with
  \<open>0 < writeSize < len(buffer)\<close>, where it cannot panic and is \<open>take\<close>.
  For a slice of length 0 the Go loop never ends, so the loop is a partial function:
  \<open>None\<close> is "does not return".
\<close>

partial_function (option) streamLoop ::
  "ResponseWriter \<Rightarrow> string \<Rightarrow> int64 \<Rightarrow> (ResponseWriter \<times> string option) option" where
  "streamLoop w buffer remaining =
     (if 0 <s remaining then
        (let writeSize = (word_of_nat (length buffer) :: int64);
             shorter = (remaining <s writeSize);
             writeSize = (if shorter then remaining else writeSize);
             buffer = (if shorter then take (nat (sint writeSize)) buffer else buffer)
         in case Write w buffer of
              (w', Some err) \<Rightarrow> Some (w', Some err)
            | (w', None) \<Rightarrow> streamLoop w' buffer (remaining - writeSize))
      else Some (w, None))"

text \<open>Lines 221-250: from the response headers to the end of the function body.\<close>

definition downloadBody ::
  "Time \<Rightarrow> Process \<Rightarrow> ResponseWriter \<Rightarrow> Request \<Rightarrow> int64 \<Rightarrow> (Process \<times> ResponseWriter) option" where
  "downloadBody now srv w r numBytes =
     (let w1 = Header_Set w ''Content-Type'' ''application/octet-stream'';
          w2 = Header_Set w1 ''Content-Length'' (FormatInt numBytes);
          w3 = Header_Set w2 ''Cache-Control'' ''no-cache, no-store, must-revalidate''
      in case streamLoop w3 (replicate downloadBufferSize (CHR 0x00)) numBytes of
           None \<Rightarrow> None
         | Some (w4, Some err) \<Rightarrow> Some (Printf srv (DownloadWriteError (RemoteAddr r) err), w4)
         | Some (w4, None) \<Rightarrow>
             (let st = stats srv;
                  st1 = st\<lparr>totalDownloads := totalDownloads st + 1\<rparr>;
                  st2 = st1\<lparr>totalBytesDown := totalBytesDown st1 + numBytes\<rparr>;
                  st3 = st2\<lparr>lastRequestTime := now\<rparr>
              in Some (Printf (srv\<lparr>stats := st3\<rparr>) (DownloadLog (RemoteAddr r) numBytes), w4)))"

text \<open>
  The deferred call of line 212 (and 268): it runs when the function returns, on every
  path that leaves the function after the \<^verbatim>\<open>defer\<close> statement.
\<close>

definition deferredDecrement :: "Process \<Rightarrow> Process" where
  "deferredDecrement srv = srv\<lparr>stats := AddInt64_currentConcurrent (stats srv) (- 1)\<rparr>"

text \<open>Lines 210-219: the increment and the peak update.\<close>

definition enterTransfer :: "Process \<Rightarrow> Process" where
  "enterTransfer srv =
     (let srv1 = srv\<lparr>stats := AddInt64_currentConcurrent (stats srv) 1\<rparr>
      in srv1\<lparr>stats := updatePeak (stats srv1)\<rparr>)"

definition downloadHandler ::
  "(string \<Rightarrow> string) \<Rightarrow> Time \<Rightarrow> Process \<Rightarrow> ResponseWriter \<Rightarrow> Request \<Rightarrow> Outcome option" where
  "downloadHandler quote now srv w r =
     (if Method r \<noteq> ''GET'' then
        Some \<lparr>server = srv,
              response = http_Error w ''method not allowed'' StatusMethodNotAllowed,
              bodyRead = 0\<rparr>
      else case parseBytes quote r of
             Inl err \<Rightarrow>
               Some \<lparr>server = srv, response = http_Error w err StatusBadRequest, bodyRead = 0\<rparr>
           | Inr numBytes \<Rightarrow>
               (case downloadBody now (enterTransfer srv) w r numBytes of
                  None \<Rightarrow> None
                | Some (srv', w') \<Rightarrow>
                    Some \<lparr>server = deferredDecrement srv', response = w', bodyRead = 0\<rparr>))"

subsection \<open>uploadHandler (main.go 254-302)\<close>

text \<open>\<^verbatim>\<open>io.Copy(io.Discard, r.Body)\<close>: the number of bytes read and the error that ended
  the read, if any.\<close>

definition io_Copy_Discard :: "Request \<Rightarrow> int64 \<times> string option" where
  "io_Copy_Discard r = (word_of_nat (length (Body r)), BodyErr r)"

definition okBody :: "int64 \<Rightarrow> string" where
  \<open>okBody uploadedBytes = ''{"ok":true,"bytes":'' @ FormatInt uploadedBytes @ ''}''\<close>

text \<open>Lines 277-301: from the read of the body to the end of the function body.\<close>

definition uploadBody ::
  "Time \<Rightarrow> Process \<Rightarrow> ResponseWriter \<Rightarrow> Request \<Rightarrow> int64 \<Rightarrow> Process \<times> ResponseWriter" where
  "uploadBody now srv w r expectedBytes =
     (case io_Copy_Discard r of
        (uploadedBytes, Some err) \<Rightarrow>
          (Printf srv (UploadReadError (RemoteAddr r) err),
           http_Error w ''upload error'' StatusInternalServerError)
      | (uploadedBytes, None) \<Rightarrow>
          (let srv1 = (if uploadedBytes \<noteq> expectedBytes
                       then Printf srv (UploadWarning (RemoteAddr r) expectedBytes uploadedBytes)
                       else srv);
               w1 = Header_Set w ''Content-Type'' ''application/json'';
               w2 = WriteHeader w1 StatusOK;
               w3 = fst (Write w2 (okBody uploadedBytes));
               st = stats srv1;
               st1 = st\<lparr>totalUploads := totalUploads st + 1\<rparr>;
               st2 = st1\<lparr>totalBytesUp := totalBytesUp st1 + uploadedBytes\<rparr>;
               st3 = st2\<lparr>totalConnections := totalConnections st2 + 1\<rparr>;
               st4 = st3\<lparr>lastRequestTime := now\<rparr>
           in (Printf (srv1\<lparr>stats := st4\<rparr>) (UploadLog (RemoteAddr r) uploadedBytes), w3)))"

definition uploadHandler ::
  "(string \<Rightarrow> string) \<Rightarrow> Time \<Rightarrow> Process \<Rightarrow> ResponseWriter \<Rightarrow> Request \<Rightarrow> Outcome" where
  "uploadHandler quote now srv w r =
     (if Method r \<noteq> ''POST'' then
        \<lparr>server = srv,
         response = http_Error w ''method not allowed'' StatusMethodNotAllowed,
         bodyRead = 0\<rparr>
      else case parseBytes quote r of
             Inl err \<Rightarrow>
               \<lparr>server = srv, response = http_Error w err StatusBadRequest, bodyRead = 0\<rparr>
           | Inr expectedBytes \<Rightarrow>
               (case uploadBody now (enterTransfer srv) w r expectedBytes of
                  (srv', w') \<Rightarrow>
                    \<lparr>server = deferredDecrement srv', response = w',
                     bodyRead = length (Body r)\<rparr>))"

subsection \<open>The stream as a list of writes\<close>

text \<open>
  Two auxiliary functions describe what the streaming loop does: \<open>writeAll\<close> issues one
  \<^verbatim>\<open>Write\<close> per payload and stops at the first error; \<open>chunks sz c n\<close> cuts \<open>n\<close> bytes
  \<open>c\<close> into payloads of \<open>sz\<close> bytes, the last one shorter when \<open>sz\<close> does not divide \<open>n\<close>.
\<close>

fun writeAll :: "ResponseWriter \<Rightarrow> string list \<Rightarrow> ResponseWriter \<times> string option" where
  "writeAll w [] = (w, None)"
| "writeAll w (p # ps) =
     (case Write w p of (w', Some e) \<Rightarrow> (w', Some e) | (w', None) \<Rightarrow> writeAll w' ps)"

definition chunks :: "nat \<Rightarrow> 'a \<Rightarrow> nat \<Rightarrow> 'a list list" where
  "chunks sz c n =
     replicate (n div sz) (replicate sz c) @
     (if n mod sz = 0 then [] else [replicate (n mod sz) c])"

text \<open>The writer after one more \<^verbatim>\<open>Write\<close> call, whatever its result: the status
  line is out and the call is counted.\<close>

definition sent :: "ResponseWriter \<Rightarrow> ResponseWriter" where
  "sent w = (WriteHeader w 200)\<lparr>WriteCalls := Suc (WriteCalls w)\<rparr>"

section \<open>Example values\<close>

text \<open>A server that has served nothing, a fresh response on a connection that accepts
  every write, one whose \<open>k\<close>-th write fails, and requests with one \<open>bytes\<close> parameter.\<close>

definition idleServer :: Process where
  "idleServer =
     \<lparr>stats = \<lparr>totalDownloads = 0, totalUploads = 0, totalBytesDown = 0, totalBytesUp = 0,
        totalConnections = 0, startTime = 0, lastRequestTime = 0, peakConcurrent = 0,
        currentConcurrent = 0\<rparr>,
      logged = []\<rparr>"

definition freshWriter :: ResponseWriter where
  "freshWriter =
     \<lparr>Header = Map.empty, StatusCode = None, Written = [], WriteCalls = 0,
      ConnErr = (\<lambda>k. None)\<rparr>"

definition brokenWriter :: "nat \<Rightarrow> ResponseWriter" where
  "brokenWriter k = freshWriter\<lparr>ConnErr := (\<lambda>j. if j = k then Some ''broken pipe'' else None)\<rparr>"

definition request :: "string \<Rightarrow> string \<Rightarrow> string \<Rightarrow> Request" where
  "request method bytesParam body =
     \<lparr>Method = method, Query = [''bytes'' \<mapsto> [bytesParam]], RemoteAddr = ''192.0.2.1:40000'',
      Body = body, BodyErr = None\<rparr>"

definition requestNoBytes :: "string \<Rightarrow> Request" where
  "requestNoBytes method =
     \<lparr>Method = method, Query = Map.empty, RemoteAddr = ''192.0.2.1:40000'',
      Body = [], BodyErr = None\<rparr>"

section \<open>The client\<close>

subsection \<open>Config and its validation (main.go 45-58, 103-133)\<close>

record Config =
  Mode :: string
  Direction :: string
  Count :: int64
  Size :: int64
  Server :: string
  Port :: string
  Host :: string

definition isValidDirection :: "string \<Rightarrow> bool" where
  "isValidDirection d = (d = directionDown \<or> d = directionUp \<or> d = directionBoth)"

text \<open>\<^verbatim>\<open>strconv.Atoi\<close> accepts what \<^verbatim>\<open>ParseInt(s, 10, 0)\<close> accepts; its error names Atoi.\<close>

definition Atoi :: "string \<Rightarrow> NumError + int64" where
  "Atoi s = (case ParseInt s of Inl e \<Rightarrow> Inl (NumError ''Atoi'' (Num e) (Err e)) | Inr n \<Rightarrow> Inr n)"

text \<open>The result is the error's message, \<open>None\<close> for \<^verbatim>\<open>nil\<close>.\<close>

definition validate :: "Config \<Rightarrow> string option" where
  "validate c =
     (if Mode c = modeClient then
        (if Count c <s 1 then Some (''count must be at least 1, got '' @ FormatInt (Count c))
         else if Size c <s 1 then Some (''size must be at least 1 MB, got '' @ FormatInt (Size c))
         else if \<not> isValidDirection (Direction c) then
           Some (''invalid direction '' @ [CHR 0x27] @ Direction c @ [CHR 0x27] @
                 '', must be 'down', 'up', or 'both'' @ [CHR 0x27])
         else if Server c = [] then Some ''server address cannot be empty''
         else None)
      else if Mode c = modeServer then
        (if Port c = [] \<or> Port c = ''0'' then Some ''port cannot be empty''
         else if isl (Atoi (Port c)) then Some ''port must be a valid number''
         else None)
      else Some (''invalid mode '' @ [CHR 0x27] @ Mode c @ [CHR 0x27] @
                 '', must be 'client' or 'server'' @ [CHR 0x27]))"

subsection \<open>float64 and time.Duration\<close>

text \<open>
  The client computes its rates in float64.  The arithmetic of float64 is a parameter:
  a value of type \<open>'f float64_ops\<close> gives the conversion from an integer and the three
  operations the program uses, so that every statement below holds for IEEE 754 double
  precision as it holds for exact arithmetic.
\<close>

record 'f float64_ops =
  f64_of_int :: "int \<Rightarrow> 'f"
  f64_add :: "'f \<Rightarrow> 'f \<Rightarrow> 'f"
  f64_mul :: "'f \<Rightarrow> 'f \<Rightarrow> 'f"
  f64_div :: "'f \<Rightarrow> 'f \<Rightarrow> 'f"

definition exact_ops :: "real float64_ops" where
  "exact_ops = \<lparr>f64_of_int = real_of_int, f64_add = (+), f64_mul = (*), f64_div = (/)\<rparr>"

text \<open>
  A \<^verbatim>\<open>time.Duration\<close> is an int64 count of nanoseconds.  \<^verbatim>\<open>Duration.Seconds\<close> of package
  time: \<^verbatim>\<open>sec := d / Second; nsec := d % Second; return float64(sec) + float64(nsec)/1e9\<close>,
  with Go's truncating division.
\<close>

definition Seconds :: "'f float64_ops \<Rightarrow> int64 \<Rightarrow> 'f" where
  "Seconds F d =
     f64_add F (f64_of_int F (sint d sdiv 1000000000))
       (f64_div F (f64_of_int F (sint d smod 1000000000)) (f64_of_int F 1000000000))"

subsection \<open>One HTTP exchange as the client sees it\<close>

record ClientRequest =
  ReqMethod :: string
  ReqURL :: string
  ReqBody :: string
  ReqHeader :: "string \<rightharpoonup> string list"

text \<open>The response: its status code and its body, which is read to the end normally
  (\<open>RespBodyErr = None\<close>) or until an error.\<close>

record ClientResponse =
  RespStatusCode :: int64
  RespBody :: string
  RespBodyErr :: "string option"

text \<open>
  The world of one test: whether \<^verbatim>\<open>http.NewRequest\<close> rejects the method and URL, what
  \<^verbatim>\<open>httpClient.Do\<close> returns for a request, and the two stretches of time the test
  measures: from \<^verbatim>\<open>startTime\<close> to the return of \<^verbatim>\<open>Do\<close>, and from there to the end of
  the read of the response body.
\<close>

record Transport =
  NewRequestErr :: "string \<Rightarrow> string \<Rightarrow> string option"
  Do :: "ClientRequest \<Rightarrow> string + ClientResponse"
  doTime :: int64
  copyTime :: int64

text \<open>A test returns its values, returns an error, or panics.\<close>

datatype 'a result = Done 'a | Failed string | Panic string

definition StatusOK_int :: int64 where "StatusOK_int = 200"

text \<open>The rate of lines 497-498 and 534-535, from a byte count and a duration.\<close>

definition speedMbps :: "'f float64_ops \<Rightarrow> int64 \<Rightarrow> int64 \<Rightarrow> 'f" where
  "speedMbps F numBytes elapsed =
     (let speedBytesPerSec = f64_div F (f64_of_int F (sint numBytes)) (Seconds F elapsed)
      in f64_div F (f64_mul F speedBytesPerSec (f64_of_int F 8)) (f64_of_int F 1000000))"

subsection \<open>runDownloadTest (main.go 467-501)\<close>

definition downURL :: "Config \<Rightarrow> string" where
  "downURL config = ''http://'' @ Server config @ ''/__down?bytes='' @ FormatInt (Size config * 1000000)"

definition runDownloadTest ::
  "'f float64_ops \<Rightarrow> Config \<Rightarrow> Transport \<Rightarrow> ('f \<times> int64) result" where
  "runDownloadTest F config t =
     (let url = downURL config in
      case NewRequestErr t ''GET'' url of
        Some err \<Rightarrow> Failed (''request creation failed: '' @ err)
      | None \<Rightarrow>
          (case Do t \<lparr>ReqMethod = ''GET'', ReqURL = url, ReqBody = [], ReqHeader = Map.empty\<rparr> of
             Inl err \<Rightarrow> Failed (''download failed: '' @ err)
           | Inr resp \<Rightarrow>
               if RespStatusCode resp \<noteq> StatusOK_int
               then Failed (''server returned status '' @ FormatInt (RespStatusCode resp))
               else
                 (case RespBodyErr resp of
                    Some err \<Rightarrow> Failed (''read failed: '' @ err)
                  | None \<Rightarrow>
                      (let bytesDownloaded = (word_of_nat (length (RespBody resp)) :: int64);
                           elapsed = doTime t + copyTime t
                       in if elapsed = 0 then Failed ''test completed too quickly to measure''
                          else Done (speedMbps F bytesDownloaded elapsed, elapsed)))))"

subsection \<open>runUploadTest (main.go 503-538)\<close>

definition upURL :: "Config \<Rightarrow> string" where
  "upURL config = ''http://'' @ Server config @ ''/__up?bytes='' @ FormatInt (Size config * 1000000)"

text \<open>
  \<^verbatim>\<open>make([]T, n)\<close> is the runtime's \<^verbatim>\<open>makeslice\<close>: it panics with
  "makeslice: len out of range" when \<^verbatim>\<open>n\<close> is negative, or when the size of the element
  times \<^verbatim>\<open>n\<close> overflows or is more than \<^verbatim>\<open>maxAlloc\<close>.  The product is taken over the
  integers below, so an overflow is more than \<^verbatim>\<open>maxAlloc\<close> too.  \<^verbatim>\<open>maxAlloc\<close> is
  \<^verbatim>\<open>1 << heapAddrBits\<close>, with 48 address bits on linux/amd64, the platform of the
  Dockerfile.  An element of \<^verbatim>\<open>[]byte\<close> is 1 byte and one of \<^verbatim>\<open>[]float64\<close> is 8 bytes, so
  \<^verbatim>\<open>make([]byte, n)\<close> panics for \<^verbatim>\<open>n\<close> above \<open>2 ^ 48\<close> and \<^verbatim>\<open>make([]float64, n)\<close> for
  \<^verbatim>\<open>n\<close> above \<open>2 ^ 45\<close>.  (An allocation that passes this test and then finds no memory
  ends the process with a fatal error of the runtime; how much memory the machine has is
  outside this model.)
\<close>

definition heapAddrBits :: nat where
  "heapAddrBits = 48"

definition maxAlloc :: int where
  "maxAlloc = 2 ^ heapAddrBits"

definition makeslicePanics :: "nat \<Rightarrow> int64 \<Rightarrow> bool" where
  "makeslicePanics elemSize len \<longleftrightarrow> len <s 0 \<or> maxAlloc < int elemSize * sint len"

text \<open>The result of the \<^verbatim>\<open>io.Copy\<close> of line 527 is dropped by the program, so the body of
  the response does not occur below.\<close>

definition runUploadTest ::
  "'f float64_ops \<Rightarrow> Config \<Rightarrow> Transport \<Rightarrow> ('f \<times> int64) result" where
  "runUploadTest F config t =
     (let numBytes = Size config * 1000000;
          url = upURL config
      in if makeslicePanics 1 numBytes then Panic ''runtime error: makeslice: len out of range''
         else
           (let data = replicate (nat (sint numBytes)) (CHR 0x00) in
            case NewRequestErr t ''POST'' url of
              Some err \<Rightarrow> Failed (''request creation failed: '' @ err)
            | None \<Rightarrow>
                (case Do t \<lparr>ReqMethod = ''POST'', ReqURL = url, ReqBody = data,
                             ReqHeader = [''Content-Type'' \<mapsto> [''application/octet-stream'']]\<rparr> of
                   Inl err \<Rightarrow> Failed (''upload failed: '' @ err)
                 | Inr resp \<Rightarrow>
                     if RespStatusCode resp \<noteq> StatusOK_int
                     then Failed (''server returned status '' @ FormatInt (RespStatusCode resp))
                     else
                       (let elapsed = doTime t + copyTime t
                        in if elapsed = 0 then Failed ''test completed too quickly to measure''
                           else Done (speedMbps F numBytes elapsed, elapsed)))))"

subsection \<open>The orchestrator (main.go 355-465, 542-553)\<close>

text \<open>
  What a run leaves on the terminal and does to the world.  A line is its text where the
  text is made of strings and integers; a line that prints float64 values with
  \<^verbatim>\<open>%-8.1f\<close> or \<^verbatim>\<open>%.2f\<close> is an event with the values.  \<open>Sleep\<close> is the pause of 500 ms.
\<close>

datatype 'f event =
    Line string
  | SpeedLine 'f
  | BothLine 'f 'f
  | AvgLine 'f
  | BothAvgLine 'f 'f
  | TotalTimeLine 'f
  | Sleep

text \<open>
  The state of a run: the events so far, the tests called so far (\<open>''down''\<close> or
  \<open>''up''\<close>, in order), and the panic that ended the process, if any.  The \<open>k\<close>-th test
  call of a run meets the world \<open>world k\<close>.
\<close>

record 'f Run =
  printed :: "'f event list"
  called :: "string list"
  panicked :: "string option"

definition emit :: "'f Run \<Rightarrow> 'f event \<Rightarrow> 'f Run" where
  "emit run e = run\<lparr>printed := printed run @ [e]\<rparr>"

definition call :: "'f Run \<Rightarrow> string \<Rightarrow> 'f Run" where
  "call run d = run\<lparr>called := called run @ [d]\<rparr>"

definition calculateAverage :: "'f float64_ops \<Rightarrow> 'f list \<Rightarrow> 'f" where
  "calculateAverage F speeds =
     (if length speeds = 0 then f64_of_int F 0
      else f64_div F (foldl (f64_add F) (f64_of_int F 0) speeds)
             (f64_of_int F (int (length speeds))))"

text \<open>What the body of a loop does to the loop: it returns from the function, or the
  loop goes on with new values of the variables.\<close>

datatype ('s, 'r) flow = Return 'r | Continue 's

text \<open>The body of the loop of runBothTests (lines 378-398) for the index \<open>i\<close>; the
  variables are downloadSpeeds, uploadSpeeds, totalTime and the run.\<close>

definition bothIteration ::
  "'f float64_ops \<Rightarrow> Config \<Rightarrow> (nat \<Rightarrow> Transport) \<Rightarrow> nat \<Rightarrow>
   'f list \<times> 'f list \<times> int64 \<times> 'f Run \<Rightarrow>
   ('f list \<times> 'f list \<times> int64 \<times> 'f Run, 'f Run) flow" where
  "bothIteration F config world i st =
     (case st of (downloadSpeeds, uploadSpeeds, totalTime, run) \<Rightarrow>
        (case runDownloadTest F config (world (length (called run))) of
           Panic p \<Rightarrow> Return ((call run ''down'')\<lparr>panicked := Some p\<rparr>)
         | Failed err \<Rightarrow>
             Return (emit (call run ''down'')
               (Line (''ERROR: download test '' @ FormatInt (word_of_nat (i + 1)) @ '': '' @ err)))
         | Done (downSpeed, downDur) \<Rightarrow>
             (let run1 = call run ''down'';
                  downloadSpeeds = downloadSpeeds[i := downSpeed];
                  totalTime = totalTime + downDur
              in case runUploadTest F config (world (length (called run1))) of
                   Panic p \<Rightarrow> Return ((call run1 ''up'')\<lparr>panicked := Some p\<rparr>)
                 | Failed err \<Rightarrow>
                     Return (emit (call run1 ''up'')
                       (Line (''ERROR: upload test '' @ FormatInt (word_of_nat (i + 1)) @ '': '' @ err)))
                 | Done (upSpeed, upDur) \<Rightarrow>
                     (let run2 = call run1 ''up'';
                          uploadSpeeds = uploadSpeeds[i := upSpeed];
                          totalTime = totalTime + upDur;
                          run3 = emit run2 (BothLine downSpeed upSpeed);
                          run4 = (if int i < sint (Count config - 1) then emit run3 Sleep else run3)
                      in Continue (downloadSpeeds, uploadSpeeds, totalTime, run4)))))"

text \<open>The loop of line 377 from the index \<open>i\<close> on, and lines 401-406 after it.\<close>

function bothLoop ::
  "'f float64_ops \<Rightarrow> Config \<Rightarrow> (nat \<Rightarrow> Transport) \<Rightarrow> nat \<Rightarrow>
   'f list \<times> 'f list \<times> int64 \<times> 'f Run \<Rightarrow> 'f Run" where
  "bothLoop F config world i st =
     (if int i < sint (Count config) then
        (case bothIteration F config world i st of
           Return run \<Rightarrow> run
         | Continue st' \<Rightarrow> bothLoop F config world (i + 1) st')
      else
        (case st of (downloadSpeeds, uploadSpeeds, totalTime, run) \<Rightarrow>
           (let avgDown = calculateAverage F downloadSpeeds;
                avgUp = calculateAverage F uploadSpeeds;
                run1 = emit run (Line (replicate 30 (CHR ''-'')));
                run2 = emit run1 (BothAvgLine avgDown avgUp)
            in emit run2 (TotalTimeLine (Seconds F totalTime)))))"
  by pat_completeness auto
termination
  by (relation "measure (\<lambda>(F, config, world, i, st). nat (sint (Count config)) - i)") auto

declare bothLoop.simps [simp del]

text \<open>\<^verbatim>\<open>make([]float64, config.Count)\<close> (lines 370 and 371) panics for a negative count
  and for a count above \<open>2 ^ 45\<close>, before the heading is printed.\<close>

definition runBothTests ::
  "'f float64_ops \<Rightarrow> Config \<Rightarrow> (nat \<Rightarrow> Transport) \<Rightarrow> 'f Run \<Rightarrow> 'f Run" where
  "runBothTests F config world run =
     (if makeslicePanics 8 (Count config)
      then run\<lparr>panicked := Some ''runtime error: makeslice: len out of range''\<rparr>
      else
        (let downloadSpeeds = replicate (nat (sint (Count config))) (f64_of_int F 0);
             uploadSpeeds = replicate (nat (sint (Count config))) (f64_of_int F 0);
             totalTime = 0;
             run1 = emit run (Line ''down     | up       | Mbps'');
             run2 = emit run1 (Line (replicate 30 (CHR ''-'')))
         in bothLoop F config world 0 (downloadSpeeds, uploadSpeeds, totalTime, run2)))"

text \<open>
  runDownloadTests (409-436) and runUploadTests (438-465) are the same text but for the
  test they call and the heading; \<open>dir\<close> is \<open>''down''\<close> or \<open>''up''\<close>.
\<close>

definition runTest ::
  "string \<Rightarrow> 'f float64_ops \<Rightarrow> Config \<Rightarrow> Transport \<Rightarrow> ('f \<times> int64) result" where
  "runTest dir F config t =
     (if dir = ''down'' then runDownloadTest F config t else runUploadTest F config t)"

definition singleIteration ::
  "string \<Rightarrow> 'f float64_ops \<Rightarrow> Config \<Rightarrow> (nat \<Rightarrow> Transport) \<Rightarrow> nat \<Rightarrow>
   'f list \<times> int64 \<times> 'f Run \<Rightarrow> ('f list \<times> int64 \<times> 'f Run, 'f Run) flow" where
  "singleIteration dir F config world i st =
     (case st of (speeds, totalTime, run) \<Rightarrow>
        (case runTest dir F config (world (length (called run))) of
           Panic p \<Rightarrow> Return ((call run dir)\<lparr>panicked := Some p\<rparr>)
         | Failed err \<Rightarrow>
             Return (emit (call run dir)
               (Line (''ERROR: test '' @ FormatInt (word_of_nat (i + 1)) @ '': '' @ err)))
         | Done (speed, duration) \<Rightarrow>
             (let run1 = call run dir;
                  speeds = speeds[i := speed];
                  totalTime = totalTime + duration;
                  run2 = emit run1 (SpeedLine speed);
                  run3 = (if int i < sint (Count config - 1) then emit run2 Sleep else run2)
              in Continue (speeds, totalTime, run3))))"

function singleLoop ::
  "string \<Rightarrow> 'f float64_ops \<Rightarrow> Config \<Rightarrow> (nat \<Rightarrow> Transport) \<Rightarrow> nat \<Rightarrow>
   'f list \<times> int64 \<times> 'f Run \<Rightarrow> 'f Run" where
  "singleLoop dir F config world i st =
     (if int i < sint (Count config) then
        (case singleIteration dir F config world i st of
           Return run \<Rightarrow> run
         | Continue st' \<Rightarrow> singleLoop dir F config world (i + 1) st')
      else
        (case st of (speeds, totalTime, run) \<Rightarrow>
           (let avgSpeed = calculateAverage F speeds;
                run1 = emit run (Line (replicate 18 (CHR ''-'')));
                run2 = emit run1 (AvgLine avgSpeed)
            in emit run2 (TotalTimeLine (Seconds F totalTime)))))"
  by pat_completeness auto
termination
  by (relation "measure (\<lambda>(dir, F, config, world, i, st). nat (sint (Count config)) - i)") auto

declare singleLoop.simps [simp del]

text \<open>\<^verbatim>\<open>make([]float64, config.Count)\<close> (line 410, and line 439 for the uploads) panics as in
  runBothTests, before the heading is printed.\<close>

definition runSingleTests ::
  "string \<Rightarrow> 'f float64_ops \<Rightarrow> Config \<Rightarrow> (nat \<Rightarrow> Transport) \<Rightarrow> 'f Run \<Rightarrow> 'f Run" where
  "runSingleTests dir F config world run =
     (if makeslicePanics 8 (Count config)
      then run\<lparr>panicked := Some ''runtime error: makeslice: len out of range''\<rparr>
      else
        (let speeds = replicate (nat (sint (Count config))) (f64_of_int F 0);
             totalTime = 0;
             run1 = emit run (Line (dir @ replicate (8 - length dir) (CHR '' '')));
             run2 = emit run1 (Line (replicate 18 (CHR ''-'')))
         in singleLoop dir F config world 0 (speeds, totalTime, run2)))"

definition runDownloadTests ::
  "'f float64_ops \<Rightarrow> Config \<Rightarrow> (nat \<Rightarrow> Transport) \<Rightarrow> 'f Run \<Rightarrow> 'f Run" where
  "runDownloadTests = runSingleTests ''down''"

definition runUploadTests ::
  "'f float64_ops \<Rightarrow> Config \<Rightarrow> (nat \<Rightarrow> Transport) \<Rightarrow> 'f Run \<Rightarrow> 'f Run" where
  "runUploadTests = runSingleTests ''up''"

text \<open>runClient (355-367): two lines, then the run of the configured direction.\<close>

definition runClient :: "'f float64_ops \<Rightarrow> Config \<Rightarrow> (nat \<Rightarrow> Transport) \<Rightarrow> 'f Run" where
  "runClient F config world =
     (let run0 = \<lparr>printed = [], called = [], panicked = None\<rparr>;
          run1 = emit run0 (Line (''Speed Test - '' @ FormatInt (Size config) @ '' MB per run''));
          run2 = emit run1 (Line (''Server: '' @ Server config));
          run3 = emit run2 (Line [])
      in if Direction config = directionBoth then runBothTests F config world run3
         else if Direction config = directionDown then runDownloadTests F config world run3
         else if Direction config = directionUp then runUploadTests F config world run3
         else run3)"

subsection \<open>Example values for the client\<close>

definition clientConfig :: "string \<Rightarrow> int64 \<Rightarrow> int64 \<Rightarrow> Config" where
  "clientConfig direction sizeMB count =
     \<lparr>Mode = modeClient, Direction = direction, Count = count, Size = sizeMB,
      Server = ''127.0.0.1:8080'', Port = ''8080'', Host = ''0.0.0.0''\<rparr>"

text \<open>A world in which every request is answered by \<open>resp\<close>, after 600 ms, and the
  body is read in another 400 ms; and one in which the connection is refused.\<close>

definition answering :: "ClientResponse \<Rightarrow> Transport" where
  "answering resp =
     \<lparr>NewRequestErr = (\<lambda>method url. None), Do = (\<lambda>req. Inr resp),
      doTime = 600000000, copyTime = 400000000\<rparr>"

definition refusing :: Transport where
  "refusing =
     \<lparr>NewRequestErr = (\<lambda>method url. None), Do = (\<lambda>req. Inl ''connection refused''),
      doTime = 1000000, copyTime = 0\<rparr>"

definition okResponse :: ClientResponse where
  "okResponse =
     \<lparr>RespStatusCode = 200, RespBody = replicate 10000000 (CHR 0x00), RespBodyErr = None\<rparr>"

text \<open>A world whose \<open>n\<close>-th test call is refused and whose other calls are answered.\<close>

definition refusedAt :: "nat \<Rightarrow> nat \<Rightarrow> Transport" where
  "refusedAt n k = (if k = n then refusing else answering okResponse)"

section \<open>Requests in parallel: the two concurrency counters\<close>

text \<open>
  Handlers run in parallel, one goroutine per request.  The operations of sync/atomic are
  sequentially consistent, so a run of several handlers is an interleaving of their
  atomic operations on \<^verbatim>\<open>stats.currentConcurrent\<close> and \<^verbatim>\<open>stats.peakConcurrent\<close>.  The
  position of a handler that has passed validation, with the values of its local
  variables \<^verbatim>\<open>current\<close> and \<^verbatim>\<open>peak\<close> where they are set:
  \<^item> \<open>AtAdd\<close>: before the increment of line 211 (267);
  \<^item> \<open>AtLoadCurrent\<close>: before the load of line 215 (271);
  \<^item> \<open>AtLoadPeak current\<close>: before the load of line 216 (272);
  \<^item> \<open>AtLoop current peak\<close>: at the condition of the loop of line 217 (273);
  \<^item> \<open>AtReloadPeak current\<close>: in the body of the loop, line 218 (274);
  \<^item> \<open>InTransfer\<close>: in the rest of the function body; its one step here is the
    deferred decrement that ends it;
  \<^item> \<open>Finished\<close>: returned.
\<close>

datatype pc =
    AtAdd
  | AtLoadCurrent
  | AtLoadPeak int64
  | AtLoop int64 int64
  | AtReloadPeak int64
  | InTransfer
  | Finished

text \<open>One atomic step of one handler on the shared counters.\<close>

definition threadStep :: "ServerStats \<Rightarrow> pc \<Rightarrow> ServerStats \<times> pc" where
  "threadStep s p =
     (case p of
        AtAdd \<Rightarrow> (AddInt64_currentConcurrent s 1, AtLoadCurrent)
      | AtLoadCurrent \<Rightarrow> (s, AtLoadPeak (currentConcurrent s))
      | AtLoadPeak current \<Rightarrow> (s, AtLoop current (peakConcurrent s))
      | AtLoop current peak \<Rightarrow>
          (if peak <s current then
             (if snd (CompareAndSwapInt64_peakConcurrent s peak current)
              then (fst (CompareAndSwapInt64_peakConcurrent s peak current), InTransfer)
              else (fst (CompareAndSwapInt64_peakConcurrent s peak current), AtReloadPeak current))
           else (s, InTransfer))
      | AtReloadPeak current \<Rightarrow> (s, AtLoop current (peakConcurrent s))
      | InTransfer \<Rightarrow> (AddInt64_currentConcurrent s (- 1), Finished)
      | Finished \<Rightarrow> (s, Finished))"

record System =
  shared :: ServerStats
  threads :: "pc list"

text \<open>The handler number \<open>t\<close> takes its next step.\<close>

definition step :: "System \<Rightarrow> nat \<Rightarrow> System" where
  "step sys t =
     (if t < length (threads sys)
      then \<lparr>shared = fst (threadStep (shared sys) (threads sys ! t)),
            threads = (threads sys)[t := snd (threadStep (shared sys) (threads sys ! t))]\<rparr>
      else sys)"

text \<open>The states a schedule passes through, the first one included.\<close>

fun trace :: "System \<Rightarrow> nat list \<Rightarrow> System list" where
  "trace sys [] = [sys]"
| "trace sys (t # ts) = sys # trace (step sys t) ts"

text \<open>\<open>K\<close> requests that have passed validation, none of them started.\<close>

definition start :: "ServerStats \<Rightarrow> nat \<Rightarrow> System" where
  "start s K = \<lparr>shared = s, threads = replicate K AtAdd\<rparr>"

text \<open>A handler between its increment and its decrement.\<close>

definition inFlight :: "pc \<Rightarrow> bool" where
  "inFlight p = (p \<noteq> AtAdd \<and> p \<noteq> Finished)"

section \<open>Facts about 64-bit integers\<close>

lemma sint_word_of_int64:
  "- (2 ^ 63) \<le> k \<Longrightarrow> k < 2 ^ 63 \<Longrightarrow> sint (word_of_int k :: int64) = k"
  by (simp add: sint_sbintrunc' signed_take_bit_int_eq_self)

lemma sint_of_nat64: "n < 2 ^ 63 \<Longrightarrow> sint (word_of_nat n :: int64) = int n"
  using sint_word_of_int64 [of "int n"] by simp

lemma of_nat_sint64: "0 \<le> sint (x :: int64) \<Longrightarrow> word_of_nat (nat (sint x)) = x"
  by (simp add: word_of_int_nat [symmetric])

lemma sint_bounds64: "- (2 ^ 63) \<le> sint (x :: int64)" "sint (x :: int64) < 2 ^ 63"
  using sint_ge [of x] sint_lt [of x] by simp_all

lemma sint_minBytes: "sint minBytes = 1048576"
  by (simp add: minBytes_def)

lemma sint_maxBytes: "sint maxBytes = 10737418240"
  by (simp add: maxBytes_def)

section \<open>The streaming loop\<close>

lemma streamLoop_zero: "streamLoop w buffer 0 = Some (w, None)"
  by (subst streamLoop.simps) simp

lemma chunks_0: "chunks sz c 0 = []"
  by (simp add: chunks_def)

lemma chunks_small: "0 < n \<Longrightarrow> n < sz \<Longrightarrow> chunks sz c n = [replicate n c]"
  by (simp add: chunks_def)

lemma chunks_step:
  "0 < sz \<Longrightarrow> sz \<le> n \<Longrightarrow> chunks sz c n = replicate sz c # chunks sz c (n - sz)"
  by (simp add: chunks_def le_div_geq le_mod_geq)

text \<open>The loop returns for every byte count that fits an int64, and it issues exactly
  the writes of \<open>chunks\<close>, up to the first one that fails.\<close>

lemma streamLoop_writeAll:
  assumes "0 < sz" "sz < 2 ^ 63"
  shows "n < 2 ^ 63 \<Longrightarrow>
    streamLoop w (replicate sz c) (word_of_nat n) = Some (writeAll w (chunks sz c n))"
proof (induction n arbitrary: w rule: less_induct)
  case (less n)
  have sn: "sint (word_of_nat n :: int64) = int n"
    using less.prems by (rule sint_of_nat64)
  have ss: "sint (word_of_nat sz :: int64) = int sz"
    using assms(2) by (rule sint_of_nat64)
  consider "n = 0" | "0 < n" "n < sz" | "sz \<le> n" by linarith
  then show ?case
  proof cases
    case 1
    then show ?thesis by (simp add: streamLoop_zero chunks_0)
  next
    case 2
    have pos: "(0 :: int64) <s word_of_nat n" using 2 sn by (simp add: word_sless_alt)
    have lt: "(word_of_nat n :: int64) <s word_of_nat sz"
      using 2 sn ss by (simp add: word_sless_alt)
    show ?thesis
      apply (subst streamLoop.simps)
      using pos lt 2 sn
      by (simp add: Let_def chunks_small streamLoop_zero min_def split: prod.splits option.splits)
  next
    case 3
    have pos: "(0 :: int64) <s word_of_nat n" using 3 assms(1) sn by (simp add: word_sless_alt)
    have nlt: "\<not> (word_of_nat n :: int64) <s word_of_nat sz"
      using 3 sn ss by (simp add: word_sless_alt)
    have sub: "(word_of_nat n :: int64) - word_of_nat sz = word_of_nat (n - sz)"
      using 3 by simp
    have IH: "\<And>w'. streamLoop w' (replicate sz c) (word_of_nat (n - sz))
        = Some (writeAll w' (chunks sz c (n - sz)))"
      using less.IH [of "n - sz"] 3 assms(1) less.prems by simp
    show ?thesis
      apply (subst streamLoop.simps)
      using pos nlt
      by (simp add: Let_def chunks_step [OF assms(1) 3] sub IH split: prod.splits option.splits)
  qed
qed

section \<open>Writes\<close>


lemma sent_simps [simp]:
  "ConnErr (sent w) = ConnErr w"
  "Header (sent w) = Header w"
  "WriteCalls (sent w) = Suc (WriteCalls w)"
  "Written (sent w) = Written w"
  "StatusCode (sent w) = Some (case StatusCode w of None \<Rightarrow> 200 | Some c \<Rightarrow> c)"
  by (simp_all add: sent_def WriteHeader_def split: option.splits)

lemma Write_None:
  "ConnErr w (WriteCalls w) = None \<Longrightarrow> Write w p = ((sent w)\<lparr>Written := Written w @ [p]\<rparr>, None)"
  by (simp add: Write_def sent_def WriteHeader_def Let_def)

lemma Write_Some:
  "ConnErr w (WriteCalls w) = Some e \<Longrightarrow> Write w p = (sent w, Some e)"
  by (simp add: Write_def sent_def WriteHeader_def Let_def)

lemma writeAll_frame [simp]:
  "ConnErr (fst (writeAll w ps)) = ConnErr w \<and> Header (fst (writeAll w ps)) = Header w"
proof (induction ps arbitrary: w)
  case Nil
  show ?case by simp
next
  case (Cons p ps)
  show ?case
  proof (cases "ConnErr w (WriteCalls w)")
    case None
    then show ?thesis using Cons.IH [of "(sent w)\<lparr>Written := Written w @ [p]\<rparr>"]
      by (simp add: Write_None)
  next
    case (Some e)
    then show ?thesis by (simp add: Write_Some)
  qed
qed

lemma writeAll_ok:
  "(\<forall>k < length ps. ConnErr w (WriteCalls w + k) = None) \<Longrightarrow>
     snd (writeAll w ps) = None \<and>
     Written (fst (writeAll w ps)) = Written w @ ps \<and>
     WriteCalls (fst (writeAll w ps)) = WriteCalls w + length ps"
proof (induction ps arbitrary: w)
  case Nil
  then show ?case by simp
next
  case (Cons p ps)
  have h0: "ConnErr w (WriteCalls w) = None" using Cons.prems by auto
  let ?w = "(sent w)\<lparr>Written := Written w @ [p]\<rparr>"
  have "\<forall>k<length ps. ConnErr ?w (WriteCalls ?w + k) = None"
    using Cons.prems by auto
  from Cons.IH [OF this] h0
  show ?case by (simp add: Write_None)
qed

lemma writeAll_fail:
  "j < length ps \<Longrightarrow> ConnErr w (WriteCalls w + j) = Some e \<Longrightarrow>
   (\<forall>k < j. ConnErr w (WriteCalls w + k) = None) \<Longrightarrow>
     snd (writeAll w ps) = Some e \<and>
     Written (fst (writeAll w ps)) = Written w @ take j ps \<and>
     WriteCalls (fst (writeAll w ps)) = WriteCalls w + j + 1"
proof (induction ps arbitrary: w j)
  case Nil
  then show ?case by simp
next
  case (Cons p ps)
  show ?case
  proof (cases j)
    case 0
    then show ?thesis using Cons.prems by (simp add: Write_Some)
  next
    case (Suc j')
    have h0: "ConnErr w (WriteCalls w) = None" using Cons.prems Suc by auto
    let ?w = "(sent w)\<lparr>Written := Written w @ [p]\<rparr>"
    have a: "j' < length ps" using Cons.prems Suc by simp
    have b: "ConnErr ?w (WriteCalls ?w + j') = Some e"
      using Cons.prems Suc by simp
    have c: "\<forall>k<j'. ConnErr ?w (WriteCalls ?w + k) = None"
      using Cons.prems Suc by auto
    from Cons.IH [OF a b c] h0 Suc
    show ?thesis by (simp add: Write_None)
  qed
qed

lemma Header_Set_simps [simp]:
  "Header (Header_Set w k v) = (Header w)(k \<mapsto> [v])"
  "StatusCode (Header_Set w k v) = StatusCode w"
  "Written (Header_Set w k v) = Written w"
  "WriteCalls (Header_Set w k v) = WriteCalls w"
  "ConnErr (Header_Set w k v) = ConnErr w"
  by (simp_all add: Header_Set_def)

lemma Header_Del_simps [simp]:
  "Header (Header_Del w k) = (Header w)(k := None)"
  "StatusCode (Header_Del w k) = StatusCode w"
  "Written (Header_Del w k) = Written w"
  "WriteCalls (Header_Del w k) = WriteCalls w"
  "ConnErr (Header_Del w k) = ConnErr w"
  by (simp_all add: Header_Del_def)

lemma WriteHeader_simps [simp]:
  "Header (WriteHeader w code) = Header w"
  "StatusCode (WriteHeader w code) = Some (case StatusCode w of None \<Rightarrow> code | Some c \<Rightarrow> c)"
  "Written (WriteHeader w code) = Written w"
  "WriteCalls (WriteHeader w code) = WriteCalls w"
  "ConnErr (WriteHeader w code) = ConnErr w"
  by (simp_all add: WriteHeader_def split: option.splits)

lemma Write_fields:
  "StatusCode (fst (Write w p)) = Some (case StatusCode w of None \<Rightarrow> 200 | Some c \<Rightarrow> c)"
  "WriteCalls (fst (Write w p)) = Suc (WriteCalls w)"
  "Written (fst (Write w p)) =
     (if ConnErr w (WriteCalls w) = None then Written w @ [p] else Written w)"
  "Header (fst (Write w p)) = Header w"
  "ConnErr (fst (Write w p)) = ConnErr w"
  by (cases "ConnErr w (WriteCalls w)"; simp add: Write_None Write_Some)+

lemma http_Error_fields:
  "StatusCode (http_Error w msg code) = Some (case StatusCode w of None \<Rightarrow> code | Some c \<Rightarrow> c)"
  "WriteCalls (http_Error w msg code) = Suc (WriteCalls w)"
  "Written (http_Error w msg code) =
     (if ConnErr w (WriteCalls w) = None then Written w @ [msg @ [CHR 0x0A]] else Written w)"
  "ConnErr (http_Error w msg code) = ConnErr w"
  unfolding http_Error_def Let_def by (simp_all add: Write_fields)

section \<open>Decimal texts\<close>


lemma of_char_digitChar: "d < 10 \<Longrightarrow> (of_char (digitChar d) :: nat) = 48 + d"
  by (simp add: digitChar_def)

lemma isDigit_digitChar: "d < 10 \<Longrightarrow> isDigit (digitChar d)"
  by (simp add: isDigit_def of_char_digitChar)

lemma digitVal_digitChar: "d < 10 \<Longrightarrow> digitVal (digitChar d) = d"
  by (simp add: digitVal_def of_char_digitChar)

lemma parseDigits_append:
  "parseDigits a (xs @ ys) = (case parseDigits a xs of Inl e \<Rightarrow> Inl e | Inr b \<Rightarrow> parseDigits b ys)"
  by (induction xs arbitrary: a) auto

lemma parseDigits_digits10:
  "n \<le> maxUint64 \<Longrightarrow> parseDigits 0 (digits10 n) = Inr n"
proof (induction n rule: digits10.induct)
  case (1 n)
  show ?case
  proof (cases "n < 10")
    case True
    then show ?thesis
      using "1.prems"
      by (subst digits10.simps) (simp add: isDigit_digitChar digitVal_digitChar maxUint64_def)
  next
    case False
    have a: "parseDigits 0 (digits10 (n div 10)) = Inr (n div 10)"
      using "1.IH" [OF False] "1.prems" by simp
    have b: "\<not> (n div 10 \<ge> maxUint64 div 10 + 1)"
      using "1.prems" by (simp add: maxUint64_def)
    have c: "n div 10 * 10 + n mod 10 = n" by simp
    show ?thesis
      using False a b "1.prems"
      by (subst digits10.simps)
         (simp add: parseDigits_append isDigit_digitChar digitVal_digitChar c del: div_mult_mod_eq)
  qed
qed

lemma digits10_nonempty: "digits10 n \<noteq> []"
  by (subst digits10.simps) simp

lemma hd_digits10: "isDigit (hd (digits10 n))"
proof (induction n rule: digits10.induct)
  case (1 n)
  show ?case
  proof (cases "n < 10")
    case True
    then show ?thesis by (subst digits10.simps) (simp add: isDigit_digitChar)
  next
    case False
    then show ?thesis using "1.IH" digits10_nonempty [of "n div 10"]
      by (subst digits10.simps) simp
  qed
qed

lemma isDigit_not_sign: "isDigit c \<Longrightarrow> c \<noteq> CHR ''+'' \<and> c \<noteq> CHR ''-''"
  by (auto simp: isDigit_def)

text \<open>Parsing the decimal text of an int64 gives the int64 back.\<close>

lemma ParseInt_FormatInt: "ParseInt (FormatInt i) = Inr i"
proof (cases "sint i < 0")
  case False
  define n where "n = nat (sint i)"
  have n: "n < 2 ^ 63" "word_of_nat n = i"
    using False sint_bounds64(2) [of i] of_nat_sint64 [of i] by (simp_all add: n_def)
  have f: "FormatInt i = digits10 n" using False by (simp add: FormatInt_def n_def)
  have s: "hd (digits10 n) \<noteq> CHR ''+''" "hd (digits10 n) \<noteq> CHR ''-''"
    using isDigit_not_sign [OF hd_digits10 [of n]] by simp_all
  have p: "parseDigits 0 (digits10 n) = Inr n"
    using n(1) by (intro parseDigits_digits10) (simp add: maxUint64_def)
  show ?thesis
    using n s p by (simp add: f ParseInt_def ParseUint_def digits10_nonempty Let_def)
next
  case True
  define n where "n = nat (- sint i)"
  have n: "n \<le> 2 ^ 63" "0 < n"
    using True sint_bounds64(1) [of i] by (simp_all add: n_def)
  have w: "- word_of_nat n = i"
  proof -
    have "word_of_nat n = (word_of_int (- sint i) :: int64)"
      using True by (simp add: n_def word_of_int_nat [symmetric])
    then show ?thesis by simp
  qed
  have f: "FormatInt i = CHR ''-'' # digits10 n" using True by (simp add: FormatInt_def n_def)
  have p: "parseDigits 0 (digits10 n) = Inr n"
    using n(1) by (intro parseDigits_digits10) (simp add: maxUint64_def)
  show ?thesis
    using n p w by (simp add: f ParseInt_def ParseUint_def digits10_nonempty Let_def)
qed

text \<open>Evaluation at numerals.\<close>

lemma ParseInt_1048576: "ParseInt ''1048576'' = Inr 1048576"
  by (simp add: ParseInt_def ParseUint_def isDigit_def digitVal_def maxUint64_def)
lemma digits10_small: "n < 10 \<Longrightarrow> digits10 n = [digitChar n]"
  by (subst digits10.simps) simp
lemma digits10_big: "10 \<le> n \<Longrightarrow> digits10 n = digits10 (n div 10) @ [digitChar (n mod 10)]"
  by (subst digits10.simps) simp
lemma digitChar_table:
  "digitChar 0 = CHR ''0''" "digitChar 1 = CHR ''1''" "digitChar 2 = CHR ''2''"
  "digitChar 3 = CHR ''3''" "digitChar 4 = CHR ''4''" "digitChar 5 = CHR ''5''"
  "digitChar 6 = CHR ''6''" "digitChar 7 = CHR ''7''" "digitChar 8 = CHR ''8''"
  "digitChar 9 = CHR ''9''" "digitChar (Suc 0) = CHR ''1''"
  by (simp_all add: digitChar_def char_of_def bit_0)
lemma FormatInt_1048576: "FormatInt 1048576 = ''1048576''"
  by (simp add: FormatInt_def digits10_small digits10_big digitChar_table)

section \<open>The download path\<close>


lemma parseBytes_valid:
  assumes "ParseInt (Values_Get (Query r) ''bytes'') = Inr N"
    and "minBytes \<le>s N" and "N \<le>s maxBytes"
  shows "parseBytes quote r = Inr N"
proof -
  have "Values_Get (Query r) ''bytes'' \<noteq> []"
    using assms(1) by (auto simp: ParseInt_def)
  then show ?thesis
    using assms by (simp add: parseBytes_def Let_def word_sless_alt word_sle_eq)
qed

lemma valid_nat:
  assumes "minBytes \<le>s N" and "N \<le>s maxBytes"
  shows "1048576 \<le> nat (sint N)" "nat (sint N) \<le> 10737418240" "word_of_nat (nat (sint N)) = N"
  using assms of_nat_sint64 [of N]
  by (simp_all add: word_sle_eq sint_minBytes sint_maxBytes)

lemma length_concat_chunks: "length (concat (chunks sz c n)) = n"
proof -
  have "n mod sz = 0 \<Longrightarrow> n div sz * sz = n"
    using div_mult_mod_eq [of n sz] by simp
  then show ?thesis
    by (simp add: chunks_def length_concat sum_list_replicate)
qed

lemma chunks_sizes:
  "0 < sz \<Longrightarrow> p \<in> set (chunks sz c n) \<Longrightarrow> 0 < length p \<and> length p \<le> sz"
  by (auto simp: chunks_def split: if_splits)

lemma chunks_butlast:
  "p \<in> set (butlast (chunks sz c n)) \<Longrightarrow> length p = sz"
  by (auto simp: chunks_def butlast_append split: if_splits dest: in_set_butlastD)

lemma downloadBody_writeAll:
  assumes "minBytes \<le>s N" and "N \<le>s maxBytes"
  shows "downloadBody now srv w r N =
    (let w3 = Header_Set (Header_Set (Header_Set w ''Content-Type'' ''application/octet-stream'')
                ''Content-Length'' (FormatInt N)) ''Cache-Control'' ''no-cache, no-store, must-revalidate''
     in case writeAll w3 (chunks downloadBufferSize (CHR 0x00) (nat (sint N))) of
           (w4, Some err) \<Rightarrow> Some (Printf srv (DownloadWriteError (RemoteAddr r) err), w4)
         | (w4, None) \<Rightarrow>
             Some (Printf (srv\<lparr>stats := (stats srv)\<lparr>totalDownloads := totalDownloads (stats srv) + 1,
                      totalBytesDown := totalBytesDown (stats srv) + N, lastRequestTime := now\<rparr>\<rparr>)
                    (DownloadLog (RemoteAddr r) N), w4))"
proof -
  have n: "nat (sint N) < 2 ^ 63" using valid_nat(2) [OF assms] by simp
  have "streamLoop w' (replicate downloadBufferSize (CHR 0x00)) N
      = Some (writeAll w' (chunks downloadBufferSize (CHR 0x00) (nat (sint N))))" for w'
    using streamLoop_writeAll [of downloadBufferSize "nat (sint N)" w' "CHR 0x00"] n
      valid_nat(3) [OF assms]
    by (simp add: downloadBufferSize_def)
  then show ?thesis
    by (simp add: downloadBody_def Let_def split: prod.splits option.splits)
qed

text \<open>
  C1.  A GET request whose \<open>bytes\<close> parameter parses to \<open>N\<close> (by \<open>ParseInt_FormatInt\<close>
  the decimal text of \<open>N\<close> is such a parameter), with \<open>minBytes \<le> N \<le> maxBytes\<close>:
  downloadHandler returns, and the Content-Length header is the decimal text of \<open>N\<close>.
  On a connection that accepts every write, the writes are \<open>N div 1048576\<close> payloads of
  1 MiB followed by one shorter payload when 1 MiB does not divide \<open>N\<close>: \<open>N\<close> bytes in
  all.  (What happens when a write fails is the subject of C4.)
\<close>

theorem download_streams_exactly_N:
  assumes "Method r = ''GET''"
    and "ParseInt (Values_Get (Query r) ''bytes'') = Inr N"
    and "minBytes \<le>s N" and "N \<le>s maxBytes"
  shows "\<exists>out. downloadHandler quote now srv w r = Some out \<and>
           Header (response out) ''Content-Length'' = Some [FormatInt N] \<and>
           ((\<forall>k. ConnErr w (WriteCalls w + k) = None) \<longrightarrow>
              Written (response out) =
                Written w @ chunks downloadBufferSize (CHR 0x00) (nat (sint N)) \<and>
              length (concat (chunks downloadBufferSize (CHR 0x00) (nat (sint N)))) = nat (sint N) \<and>
              (\<forall>p \<in> set (butlast (chunks downloadBufferSize (CHR 0x00) (nat (sint N)))).
                 length p = 1048576) \<and>
              (\<forall>p \<in> set (chunks downloadBufferSize (CHR 0x00) (nat (sint N))).
                 0 < length p \<and> length p \<le> 1048576))"
proof -
  let ?w3 = "Header_Set (Header_Set (Header_Set w ''Content-Type'' ''application/octet-stream'')
                ''Content-Length'' (FormatInt N)) ''Cache-Control'' ''no-cache, no-store, must-revalidate''"
  let ?ps = "chunks downloadBufferSize (CHR 0x00) (nat (sint N))"
  have pb: "parseBytes quote r = Inr N"
    using assms(2,3,4) by (rule parseBytes_valid)
  have hd: "Header (fst (writeAll ?w3 ?ps)) ''Content-Length'' = Some [FormatInt N]"
    using writeAll_frame [of ?w3 ?ps] by simp
  have sizes: "\<forall>p \<in> set ?ps. 0 < length p \<and> length p \<le> 1048576"
    using chunks_sizes [of downloadBufferSize _ "CHR 0x00" "nat (sint N)"]
    by (auto simp: downloadBufferSize_def)
  have full: "\<forall>p \<in> set (butlast ?ps). length p = 1048576"
    using chunks_butlast [of _ downloadBufferSize "CHR 0x00" "nat (sint N)"]
    by (auto simp: downloadBufferSize_def)
  have ok: "Written (fst (writeAll ?w3 ?ps)) = Written w @ ?ps"
    if "\<forall>k. ConnErr w (WriteCalls w + k) = None"
  proof -
    have "\<forall>k < length ?ps. ConnErr ?w3 (WriteCalls ?w3 + k) = None"
      using that by simp
    from writeAll_ok [OF this] show ?thesis by simp
  qed
  obtain w4 res where w4: "writeAll ?w3 ?ps = (w4, res)"
    by (cases "writeAll ?w3 ?ps")
  show ?thesis
  proof (cases res)
    case None
    show ?thesis
      using assms(1) pb ok hd sizes full w4 None
      by (simp add: downloadHandler_def downloadBody_writeAll [OF assms(3,4)] Let_def
          length_concat_chunks)
  next
    case (Some e)
    show ?thesis
      using assms(1) pb ok hd sizes full w4 Some
      by (simp add: downloadHandler_def downloadBody_writeAll [OF assms(3,4)] Let_def
          length_concat_chunks)
  qed
qed

lemma chunks_one: "chunks downloadBufferSize c 1048576 = [replicate 1048576 c]"
  by (simp add: chunks_def downloadBufferSize_def)

theorem download_streams_exactly_N_witness:
  "\<exists>out. downloadHandler id 0 idleServer freshWriter (request ''GET'' ''1048576'' []) = Some out \<and>
     Header (response out) ''Content-Length'' = Some [''1048576''] \<and>
     Written (response out) = [replicate 1048576 (CHR 0x00)]"
proof -
  have v: "Method (request ''GET'' ''1048576'' []) = ''GET''"
    "ParseInt (Values_Get (Query (request ''GET'' ''1048576'' [])) ''bytes'') = Inr 1048576"
    "minBytes \<le>s (1048576 :: int64)" "(1048576 :: int64) \<le>s maxBytes"
    by (simp_all add: request_def Values_Get_def ParseInt_1048576 minBytes_def maxBytes_def)
  have c: "\<forall>k. ConnErr freshWriter (WriteCalls freshWriter + k) = None"
    "Written freshWriter = []"
    by (simp_all add: freshWriter_def)
  from download_streams_exactly_N [OF v, of id 0 idleServer freshWriter] c
  show ?thesis
    by (auto simp: FormatInt_1048576 chunks_one)
qed

section \<open>The counters\<close>

lemma updatePeak_eq:
  "updatePeak s =
     (if peakConcurrent s <s currentConcurrent s then s\<lparr>peakConcurrent := currentConcurrent s\<rparr> else s)"
  by (simp add: updatePeak_def peakLoop.simps CompareAndSwapInt64_peakConcurrent_def)

lemma enterTransfer_fields [simp]:
  "currentConcurrent (stats (enterTransfer srv)) = currentConcurrent (stats srv) + 1"
  "totalDownloads (stats (enterTransfer srv)) = totalDownloads (stats srv)"
  "totalUploads (stats (enterTransfer srv)) = totalUploads (stats srv)"
  "totalBytesDown (stats (enterTransfer srv)) = totalBytesDown (stats srv)"
  "totalBytesUp (stats (enterTransfer srv)) = totalBytesUp (stats srv)"
  "totalConnections (stats (enterTransfer srv)) = totalConnections (stats srv)"
  "startTime (stats (enterTransfer srv)) = startTime (stats srv)"
  "lastRequestTime (stats (enterTransfer srv)) = lastRequestTime (stats srv)"
  "logged (enterTransfer srv) = logged srv"
  by (simp_all add: enterTransfer_def updatePeak_eq AddInt64_currentConcurrent_def Let_def)

lemma enterTransfer_peak:
  "peakConcurrent (stats (enterTransfer srv)) =
     (if peakConcurrent (stats srv) <s currentConcurrent (stats srv) + 1
      then currentConcurrent (stats srv) + 1 else peakConcurrent (stats srv))"
  by (simp add: enterTransfer_def updatePeak_eq AddInt64_currentConcurrent_def Let_def)

lemma deferredDecrement_fields [simp]:
  "currentConcurrent (stats (deferredDecrement srv)) = currentConcurrent (stats srv) - 1"
  "totalDownloads (stats (deferredDecrement srv)) = totalDownloads (stats srv)"
  "totalUploads (stats (deferredDecrement srv)) = totalUploads (stats srv)"
  "totalBytesDown (stats (deferredDecrement srv)) = totalBytesDown (stats srv)"
  "totalBytesUp (stats (deferredDecrement srv)) = totalBytesUp (stats srv)"
  "totalConnections (stats (deferredDecrement srv)) = totalConnections (stats srv)"
  "startTime (stats (deferredDecrement srv)) = startTime (stats srv)"
  "lastRequestTime (stats (deferredDecrement srv)) = lastRequestTime (stats srv)"
  "peakConcurrent (stats (deferredDecrement srv)) = peakConcurrent (stats srv)"
  "logged (deferredDecrement srv) = logged srv"
  by (simp_all add: deferredDecrement_def AddInt64_currentConcurrent_def)

lemma Printf_fields [simp]:
  "stats (Printf srv e) = stats srv"
  "logged (Printf srv e) = logged srv @ [e]"
  by (simp_all add: Printf_def)

section \<open>Statistics of a download\<close>

text \<open>The least index at which a connection fails, when it fails within the first \<open>m\<close>
  writes.\<close>

lemma first_failure:
  fixes f :: "nat \<Rightarrow> 'b option"
  assumes "\<not> (\<forall>k<m. f k = None)"
  shows "\<exists>j<m. f j \<noteq> None \<and> (\<forall>k<j. f k = None)"
proof -
  define j where "j = (LEAST k. f k \<noteq> None)"
  from assms obtain k where k: "k < m" "f k \<noteq> None" by auto
  have 1: "f j \<noteq> None" unfolding j_def using k(2) by (rule LeastI [of "\<lambda>k. f k \<noteq> None"])
  have 2: "j \<le> k" unfolding j_def using k(2) by (rule Least_le [of "\<lambda>k. f k \<noteq> None"])
  have 3: "\<forall>i<j. f i = None" unfolding j_def using not_less_Least [of _ "\<lambda>k. f k \<noteq> None"] by blast
  show ?thesis using 1 2 3 k(1) by (intro exI [of _ j]) auto
qed

text \<open>
  C4.  A valid download request on any connection: downloadHandler returns.  If every
  write of the stream succeeds, totalDownloads grows by 1, totalBytesDown by the requested
  size and lastRequestTime is the current time.  If a write fails, the three fields are
  what they were, the failed write is the last call on the connection, and the payloads
  before it are all that was written.
\<close>

theorem download_stats_all_or_nothing:
  assumes "Method r = ''GET''"
    and "ParseInt (Values_Get (Query r) ''bytes'') = Inr N"
    and "minBytes \<le>s N" and "N \<le>s maxBytes"
  shows "\<exists>out. downloadHandler quote now srv w r = Some out \<and>
     (if \<forall>k < length (chunks downloadBufferSize (CHR 0x00) (nat (sint N))).
           ConnErr w (WriteCalls w + k) = None
      then totalDownloads (stats (server out)) = totalDownloads (stats srv) + 1 \<and>
           totalBytesDown (stats (server out)) = totalBytesDown (stats srv) + N \<and>
           lastRequestTime (stats (server out)) = now \<and>
           Written (response out) =
             Written w @ chunks downloadBufferSize (CHR 0x00) (nat (sint N))
      else totalDownloads (stats (server out)) = totalDownloads (stats srv) \<and>
           totalBytesDown (stats (server out)) = totalBytesDown (stats srv) \<and>
           lastRequestTime (stats (server out)) = lastRequestTime (stats srv) \<and>
           (\<exists>j < length (chunks downloadBufferSize (CHR 0x00) (nat (sint N))).
              ConnErr w (WriteCalls w + j) \<noteq> None \<and>
              WriteCalls (response out) = WriteCalls w + j + 1 \<and>
              Written (response out) =
                Written w @ take j (chunks downloadBufferSize (CHR 0x00) (nat (sint N)))))"
proof -
  let ?w3 = "Header_Set (Header_Set (Header_Set w ''Content-Type'' ''application/octet-stream'')
                ''Content-Length'' (FormatInt N)) ''Cache-Control'' ''no-cache, no-store, must-revalidate''"
  let ?ps = "chunks downloadBufferSize (CHR 0x00) (nat (sint N))"
  have pb: "parseBytes quote r = Inr N"
    using assms(2,3,4) by (rule parseBytes_valid)
  show ?thesis
  proof (cases "\<forall>k < length ?ps. ConnErr w (WriteCalls w + k) = None")
    case True
    then have "\<forall>k < length ?ps. ConnErr ?w3 (WriteCalls ?w3 + k) = None" by simp
    from writeAll_ok [OF this]
    have ok: "snd (writeAll ?w3 ?ps) = None" "Written (fst (writeAll ?w3 ?ps)) = Written w @ ?ps"
      by simp_all
    obtain w4 where w4: "writeAll ?w3 ?ps = (w4, None)"
      using ok(1) by (cases "writeAll ?w3 ?ps") auto
    show ?thesis
      using True assms(1) pb ok(2) w4
      by (simp add: downloadHandler_def downloadBody_writeAll [OF assms(3,4)] Let_def)
  next
    case False
    from first_failure [OF False] obtain j e where j: "j < length ?ps"
      "ConnErr w (WriteCalls w + j) = Some e" "\<forall>k<j. ConnErr w (WriteCalls w + k) = None"
      by auto
    have a: "ConnErr ?w3 (WriteCalls ?w3 + j) = Some e" using j(2) by simp
    have b: "\<forall>k<j. ConnErr ?w3 (WriteCalls ?w3 + k) = None" using j(3) by simp
    from writeAll_fail [OF j(1) a b]
    have f: "snd (writeAll ?w3 ?ps) = Some e"
      "Written (fst (writeAll ?w3 ?ps)) = Written w @ take j ?ps"
      "WriteCalls (fst (writeAll ?w3 ?ps)) = WriteCalls w + j + 1"
      by simp_all
    obtain w4 where w4: "writeAll ?w3 ?ps = (w4, Some e)"
      using f(1) by (cases "writeAll ?w3 ?ps") auto
    have ex: "\<exists>j < length ?ps. ConnErr w (WriteCalls w + j) \<noteq> None \<and>
              WriteCalls w4 = WriteCalls w + j + 1 \<and> Written w4 = Written w @ take j ?ps"
      using j(1,2) f(2,3) w4 by (intro exI [of _ j]) simp
    show ?thesis
      using False assms(1) pb w4 ex
      by (simp add: downloadHandler_def downloadBody_writeAll [OF assms(3,4)] Let_def)
  qed
qed

lemma ParseInt_2097152: "ParseInt ''2097152'' = Inr 2097152"
  by (simp add: ParseInt_def ParseUint_def isDigit_def digitVal_def maxUint64_def)

lemma chunks_two:
  "chunks downloadBufferSize c 2097152 = [replicate 1048576 c, replicate 1048576 c]"
  by (simp add: chunks_def downloadBufferSize_def numeral_2_eq_2)

theorem download_stats_all_or_nothing_witness:
  "(\<exists>out. downloadHandler id 5 idleServer (brokenWriter (Suc 0)) (request ''GET'' ''2097152'' []) = Some out \<and>
      totalDownloads (stats (server out)) = 0 \<and>
      totalBytesDown (stats (server out)) = 0 \<and>
      lastRequestTime (stats (server out)) = 0 \<and>
      WriteCalls (response out) = 2 \<and>
      Written (response out) = [replicate 1048576 (CHR 0x00)]) \<and>
   (\<exists>out. downloadHandler id 5 idleServer freshWriter (request ''GET'' ''2097152'' []) = Some out \<and>
      totalDownloads (stats (server out)) = 1 \<and>
      totalBytesDown (stats (server out)) = 2097152 \<and>
      lastRequestTime (stats (server out)) = 5 \<and>
      Written (response out) = [replicate 1048576 (CHR 0x00), replicate 1048576 (CHR 0x00)])"
proof -
  have v: "Method (request ''GET'' ''2097152'' []) = ''GET''"
    "ParseInt (Values_Get (Query (request ''GET'' ''2097152'' [])) ''bytes'') = Inr 2097152"
    "minBytes \<le>s (2097152 :: int64)" "(2097152 :: int64) \<le>s maxBytes"
    by (simp_all add: request_def Values_Get_def ParseInt_2097152 minBytes_def maxBytes_def)
  have n: "nat (sint (2097152 :: int64)) = 2097152" by simp
  have less2: "\<And>j::nat. j < 2 \<longleftrightarrow> j = 0 \<or> j = 1" by auto
  have bw: "WriteCalls (brokenWriter (Suc 0)) = 0" "Written (brokenWriter (Suc 0)) = []"
    "\<And>j. ConnErr (brokenWriter (Suc 0)) j = (if j = Suc 0 then Some ''broken pipe'' else None)"
    by (simp_all add: brokenWriter_def freshWriter_def)
  have nf: "\<not> (\<forall>k < length (chunks downloadBufferSize (CHR 0x00) (nat (sint (2097152 :: int64)))).
      ConnErr (brokenWriter (Suc 0)) (WriteCalls (brokenWriter (Suc 0)) + k) = None)"
    by (simp add: n chunks_two bw)
  from download_stats_all_or_nothing [OF v, of id 5 idleServer "brokenWriter (Suc 0)"]
  obtain out where o1:
    "downloadHandler id 5 idleServer (brokenWriter (Suc 0)) (request ''GET'' ''2097152'' []) = Some out"
    and o2: "if \<forall>k < length (chunks downloadBufferSize (CHR 0x00) (nat (sint (2097152 :: int64)))).
           ConnErr (brokenWriter (Suc 0)) (WriteCalls (brokenWriter (Suc 0)) + k) = None
      then totalDownloads (stats (server out)) = totalDownloads (stats idleServer) + 1 \<and>
           totalBytesDown (stats (server out)) = totalBytesDown (stats idleServer) + 2097152 \<and>
           lastRequestTime (stats (server out)) = 5 \<and>
           Written (response out) =
             Written (brokenWriter (Suc 0)) @ chunks downloadBufferSize (CHR 0x00) (nat (sint (2097152 :: int64)))
      else totalDownloads (stats (server out)) = totalDownloads (stats idleServer) \<and>
           totalBytesDown (stats (server out)) = totalBytesDown (stats idleServer) \<and>
           lastRequestTime (stats (server out)) = lastRequestTime (stats idleServer) \<and>
           (\<exists>j < length (chunks downloadBufferSize (CHR 0x00) (nat (sint (2097152 :: int64)))).
              ConnErr (brokenWriter (Suc 0)) (WriteCalls (brokenWriter (Suc 0)) + j) \<noteq> None \<and>
              WriteCalls (response out) = WriteCalls (brokenWriter (Suc 0)) + j + 1 \<and>
              Written (response out) =
                Written (brokenWriter (Suc 0)) @ take j (chunks downloadBufferSize (CHR 0x00) (nat (sint (2097152 :: int64)))))"
    by blast
  from o2 nf
  have o3: "totalDownloads (stats (server out)) = totalDownloads (stats idleServer) \<and>
           totalBytesDown (stats (server out)) = totalBytesDown (stats idleServer) \<and>
           lastRequestTime (stats (server out)) = lastRequestTime (stats idleServer) \<and>
           (\<exists>j < length (chunks downloadBufferSize (CHR 0x00) (nat (sint (2097152 :: int64)))).
              ConnErr (brokenWriter (Suc 0)) (WriteCalls (brokenWriter (Suc 0)) + j) \<noteq> None \<and>
              WriteCalls (response out) = WriteCalls (brokenWriter (Suc 0)) + j + 1 \<and>
              Written (response out) =
                Written (brokenWriter (Suc 0)) @ take j (chunks downloadBufferSize (CHR 0x00) (nat (sint (2097152 :: int64)))))"
    by (simp only: if_False)
  then obtain j where o:
    "totalDownloads (stats (server out)) = totalDownloads (stats idleServer)"
    "totalBytesDown (stats (server out)) = totalBytesDown (stats idleServer)"
    "lastRequestTime (stats (server out)) = lastRequestTime (stats idleServer)"
    "j = Suc 0"
    "WriteCalls (response out) = Suc j"
    "Written (response out) = take j [replicate 1048576 (CHR 0x00), replicate 1048576 (CHR 0x00)]"
    by (auto simp: n chunks_two bw split: if_splits)
  have j1: "j = Suc 0" using o(4) .
  have a: "\<exists>out. downloadHandler id 5 idleServer (brokenWriter (Suc 0)) (request ''GET'' ''2097152'' []) = Some out \<and>
      totalDownloads (stats (server out)) = 0 \<and>
      totalBytesDown (stats (server out)) = 0 \<and>
      lastRequestTime (stats (server out)) = 0 \<and>
      WriteCalls (response out) = 2 \<and>
      Written (response out) = [replicate 1048576 (CHR 0x00)]"
    using o1 o(1,2,3,5,6) by (intro exI [of _ out]) (simp add: j1 idleServer_def)
  from download_stats_all_or_nothing [OF v, of id 5 idleServer freshWriter]
  have b: "\<exists>out. downloadHandler id 5 idleServer freshWriter (request ''GET'' ''2097152'' []) = Some out \<and>
      totalDownloads (stats (server out)) = 1 \<and>
      totalBytesDown (stats (server out)) = 2097152 \<and>
      lastRequestTime (stats (server out)) = 5 \<and>
      Written (response out) = [replicate 1048576 (CHR 0x00), replicate 1048576 (CHR 0x00)]"
    by (auto simp: n chunks_two freshWriter_def idleServer_def)
  show ?thesis using a b by simp
qed

section \<open>Rejected requests\<close>

lemma parseBytes_Inl_iff:
  "(\<exists>msg. parseBytes quote r = Inl msg) \<longleftrightarrow>
     Values_Get (Query r) ''bytes'' = [] \<or>
     (\<exists>e. ParseInt (Values_Get (Query r) ''bytes'') = Inl e) \<or>
     (\<exists>n. ParseInt (Values_Get (Query r) ''bytes'') = Inr n \<and> (n <s minBytes \<or> maxBytes <s n))"
  by (auto simp: parseBytes_def Let_def split: sum.splits)

lemma parseBytes_msg_nonempty: "parseBytes quote r = Inl msg \<Longrightarrow> msg \<noteq> []"
  by (auto simp: parseBytes_def Let_def split: sum.splits if_splits)

text \<open>
  C3, amended.  A request whose \<open>bytes\<close> parameter is missing, does not parse, or lies
  outside \<open>minBytes..maxBytes\<close>, on a response that has sent nothing yet: parseBytes
  returns a non-empty message; each handler answers 400 with that message and a newline
  when the request has the handler's method (GET for the download, POST for the upload),
  and 405 otherwise; in both cases the process-wide state is what it was, no byte of the
  request body is read, and the error line is the only write.
\<close>

theorem invalid_bytes_rejected:
  assumes "Values_Get (Query r) ''bytes'' = [] \<or>
     (\<exists>e. ParseInt (Values_Get (Query r) ''bytes'') = Inl e) \<or>
     (\<exists>n. ParseInt (Values_Get (Query r) ''bytes'') = Inr n \<and> (n <s minBytes \<or> maxBytes <s n))"
    and "StatusCode w = None"
  shows "\<exists>msg. parseBytes quote r = Inl msg \<and> msg \<noteq> [] \<and>
     downloadHandler quote now srv w r =
       Some \<lparr>server = srv,
             response = (if Method r = ''GET'' then http_Error w msg 400
                         else http_Error w ''method not allowed'' 405),
             bodyRead = 0\<rparr> \<and>
     uploadHandler quote now srv w r =
       \<lparr>server = srv,
        response = (if Method r = ''POST'' then http_Error w msg 400
                    else http_Error w ''method not allowed'' 405),
        bodyRead = 0\<rparr> \<and>
     StatusCode (http_Error w msg 400) = Some 400 \<and>
     StatusCode (http_Error w ''method not allowed'' 405) = Some 405 \<and>
     WriteCalls (http_Error w msg 400) = WriteCalls w + 1 \<and>
     Written (http_Error w msg 400) =
       (if ConnErr w (WriteCalls w) = None then Written w @ [msg @ [CHR 0x0A]] else Written w)"
proof -
  from assms(1) obtain msg where m: "parseBytes quote r = Inl msg"
    using parseBytes_Inl_iff [of quote r] by blast
  have ne: "msg \<noteq> []" using m by (rule parseBytes_msg_nonempty)
  have d: "downloadHandler quote now srv w r =
       Some \<lparr>server = srv,
             response = (if Method r = ''GET'' then http_Error w msg 400
                         else http_Error w ''method not allowed'' 405),
             bodyRead = 0\<rparr>"
    using m by (simp add: downloadHandler_def StatusBadRequest_def StatusMethodNotAllowed_def)
  have u: "uploadHandler quote now srv w r =
       \<lparr>server = srv,
        response = (if Method r = ''POST'' then http_Error w msg 400
                    else http_Error w ''method not allowed'' 405),
        bodyRead = 0\<rparr>"
    using m by (simp add: uploadHandler_def StatusBadRequest_def StatusMethodNotAllowed_def)
  show ?thesis
    using m ne d u assms(2)
    by (intro exI [of _ msg]) (simp add: http_Error_fields)
qed

theorem invalid_bytes_rejected_witness:
  "Values_Get (Query (requestNoBytes ''GET'')) ''bytes'' = [] \<and>
   StatusCode freshWriter = None \<and>
   (\<exists>msg. msg \<noteq> [] \<and>
      downloadHandler id 0 idleServer freshWriter (requestNoBytes ''GET'') =
        Some \<lparr>server = idleServer, response = http_Error freshWriter msg 400, bodyRead = 0\<rparr> \<and>
      StatusCode (http_Error freshWriter msg 400) = Some 400 \<and>
      Written (http_Error freshWriter msg 400) = [msg @ [CHR 0x0A]])"
proof -
  have a: "Values_Get (Query (requestNoBytes ''GET'')) ''bytes'' = []"
    by (simp add: requestNoBytes_def Values_Get_def)
  have b: "StatusCode freshWriter = None" by (simp add: freshWriter_def)
  have c: "Method (requestNoBytes ''GET'') = ''GET''" by (simp add: requestNoBytes_def)
  have e: "ConnErr freshWriter (WriteCalls freshWriter) = None" "Written freshWriter = []"
    by (simp_all add: freshWriter_def)
  from invalid_bytes_rejected [OF disjI1 [OF a] b, of id 0 idleServer]
  obtain msg where m: "msg \<noteq> []"
    "downloadHandler id 0 idleServer freshWriter (requestNoBytes ''GET'') =
        Some \<lparr>server = idleServer, response = http_Error freshWriter msg 400, bodyRead = 0\<rparr>"
    "StatusCode (http_Error freshWriter msg 400) = Some 400"
    "Written (http_Error freshWriter msg 400) = [msg @ [CHR 0x0A]]"
    using c e by auto
  show ?thesis using a b m by blast
qed

text \<open>
  C3 as stated fails: a request without a \<open>bytes\<close> parameter that uses the other method is
  answered 405, not 400.
\<close>

theorem wrong_method_is_405_not_400:
  "Values_Get (Query (requestNoBytes ''POST'')) ''bytes'' = [] \<and>
   (\<exists>out. downloadHandler id 0 idleServer freshWriter (requestNoBytes ''POST'') = Some out \<and>
      StatusCode (response out) = Some 405 \<and> StatusCode (response out) \<noteq> Some 400) \<and>
   Values_Get (Query (requestNoBytes ''GET'')) ''bytes'' = [] \<and>
   StatusCode (response (uploadHandler id 0 idleServer freshWriter (requestNoBytes ''GET''))) = Some 405 \<and>
   StatusCode (response (uploadHandler id 0 idleServer freshWriter (requestNoBytes ''GET''))) \<noteq> Some 400"
  by (simp add: requestNoBytes_def Values_Get_def downloadHandler_def uploadHandler_def
      http_Error_fields freshWriter_def StatusMethodNotAllowed_def)

section \<open>The concurrency counter of one request\<close>

lemma downloadBody_returns:
  assumes "minBytes \<le>s N" and "N \<le>s maxBytes"
  shows "\<exists>srv' w'. downloadBody now srv w r N = Some (srv', w') \<and>
           currentConcurrent (stats srv') = currentConcurrent (stats srv) \<and>
           peakConcurrent (stats srv') = peakConcurrent (stats srv)"
  by (simp add: downloadBody_writeAll [OF assms] Let_def split: prod.splits option.splits)

lemma parseBytes_Inr_range:
  "parseBytes quote r = Inr N \<Longrightarrow> minBytes \<le>s N \<and> N \<le>s maxBytes"
  by (auto simp: parseBytes_def Let_def word_sless_alt word_sle_eq split: sum.splits if_splits)

lemma uploadBody_counters:
  "currentConcurrent (stats (fst (uploadBody now srv w r N))) = currentConcurrent (stats srv) \<and>
   peakConcurrent (stats (fst (uploadBody now srv w r N))) = peakConcurrent (stats srv)"
  by (simp add: uploadBody_def io_Copy_Discard_def Let_def split: option.splits)

text \<open>
  C10.  For every request, response writer and state: downloadHandler returns, and both
  handlers leave currentConcurrent at the value it had.  A request that fails the method
  check or parseBytes leaves the whole process-wide state as it was.  A request that
  passes both goes through \<open>enterTransfer\<close>, which adds 1 to the counter and raises the
  peak to the new value if that is larger; the deferred decrement then restores the
  counter whether the transfer succeeds or ends with a write or read error.
\<close>

theorem currentConcurrent_balanced:
  "(\<exists>out. downloadHandler quote now srv w r = Some out \<and>
      currentConcurrent (stats (server out)) = currentConcurrent (stats srv) \<and>
      (if Method r = ''GET'' \<and> (\<exists>n. parseBytes quote r = Inr n)
       then peakConcurrent (stats (server out)) = peakConcurrent (stats (enterTransfer srv))
       else server out = srv)) \<and>
   currentConcurrent (stats (server (uploadHandler quote now srv w r))) =
     currentConcurrent (stats srv) \<and>
   (if Method r = ''POST'' \<and> (\<exists>n. parseBytes quote r = Inr n)
    then peakConcurrent (stats (server (uploadHandler quote now srv w r))) =
           peakConcurrent (stats (enterTransfer srv))
    else server (uploadHandler quote now srv w r) = srv) \<and>
   currentConcurrent (stats (enterTransfer srv)) = currentConcurrent (stats srv) + 1 \<and>
   peakConcurrent (stats (enterTransfer srv)) =
     (if peakConcurrent (stats srv) <s currentConcurrent (stats srv) + 1
      then currentConcurrent (stats srv) + 1 else peakConcurrent (stats srv))"
proof -
  have d: "\<exists>out. downloadHandler quote now srv w r = Some out \<and>
      currentConcurrent (stats (server out)) = currentConcurrent (stats srv) \<and>
      (if Method r = ''GET'' \<and> (\<exists>n. parseBytes quote r = Inr n)
       then peakConcurrent (stats (server out)) = peakConcurrent (stats (enterTransfer srv))
       else server out = srv)"
  proof (cases "Method r = ''GET''")
    case False
    then show ?thesis by (simp add: downloadHandler_def)
  next
    case True
    show ?thesis
    proof (cases "parseBytes quote r")
      case (Inl msg)
      then show ?thesis using True by (simp add: downloadHandler_def)
    next
      case (Inr N)
      from parseBytes_Inr_range [OF Inr]
      have rg: "minBytes \<le>s N" "N \<le>s maxBytes" by simp_all
      from downloadBody_returns [OF rg, of now "enterTransfer srv" w r]
      obtain srv' w' where b: "downloadBody now (enterTransfer srv) w r N = Some (srv', w')"
        "currentConcurrent (stats srv') = currentConcurrent (stats (enterTransfer srv))"
        "peakConcurrent (stats srv') = peakConcurrent (stats (enterTransfer srv))"
        by blast
      show ?thesis using True Inr b by (simp add: downloadHandler_def)
    qed
  qed
  have u: "currentConcurrent (stats (server (uploadHandler quote now srv w r))) =
     currentConcurrent (stats srv) \<and>
   (if Method r = ''POST'' \<and> (\<exists>n. parseBytes quote r = Inr n)
    then peakConcurrent (stats (server (uploadHandler quote now srv w r))) =
           peakConcurrent (stats (enterTransfer srv))
    else server (uploadHandler quote now srv w r) = srv)"
  proof (cases "Method r = ''POST''")
    case False
    then show ?thesis by (simp add: uploadHandler_def)
  next
    case True
    show ?thesis
    proof (cases "parseBytes quote r")
      case (Inl msg)
      then show ?thesis using True by (simp add: uploadHandler_def)
    next
      case (Inr N)
      obtain srv' w' where b: "uploadBody now (enterTransfer srv) w r N = (srv', w')"
        by (cases "uploadBody now (enterTransfer srv) w r N")
      show ?thesis using True Inr b uploadBody_counters [of now "enterTransfer srv" w r N]
        by (simp add: uploadHandler_def)
    qed
  qed
  show ?thesis using d u by (simp add: enterTransfer_peak)
qed

lemma parseBytes_1048576: "parseBytes quote (request m ''1048576'' b) = Inr 1048576"
  by (rule parseBytes_valid)
     (simp_all add: request_def Values_Get_def ParseInt_1048576 minBytes_def maxBytes_def)

lemma parseBytes_missing: "parseBytes quote (requestNoBytes m) = Inl ''missing 'bytes' parameter''"
  by (simp add: parseBytes_def requestNoBytes_def Values_Get_def)

theorem currentConcurrent_balanced_witness:
  "(\<exists>out. downloadHandler id 0 idleServer freshWriter (request ''GET'' ''1048576'' []) = Some out \<and>
      currentConcurrent (stats (server out)) = 0 \<and> peakConcurrent (stats (server out)) = 1) \<and>
   (\<exists>out. downloadHandler id 0 idleServer (brokenWriter 0) (request ''GET'' ''1048576'' []) = Some out \<and>
      currentConcurrent (stats (server out)) = 0 \<and> peakConcurrent (stats (server out)) = 1) \<and>
   (\<exists>out. downloadHandler id 0 idleServer freshWriter (requestNoBytes ''GET'') = Some out \<and>
      server out = idleServer) \<and>
   currentConcurrent (stats (server (uploadHandler id 0 idleServer freshWriter
      ((request ''POST'' ''1048576'' [])\<lparr>BodyErr := Some ''unexpected EOF''\<rparr>)))) = 0"
proof -
  have s: "currentConcurrent (stats idleServer) = 0" "peakConcurrent (stats idleServer) = 0"
    by (simp_all add: idleServer_def)
  have pk: "peakConcurrent (stats (enterTransfer idleServer)) = 1"
    by (simp add: enterTransfer_peak s word_sless_alt)
  have m: "Method (request ''GET'' ''1048576'' []) = ''GET''"
    "Method (requestNoBytes ''GET'') = ''GET''"
    by (simp_all add: request_def requestNoBytes_def)
  have a: "\<exists>out. downloadHandler id 0 idleServer freshWriter (request ''GET'' ''1048576'' []) = Some out \<and>
      currentConcurrent (stats (server out)) = 0 \<and> peakConcurrent (stats (server out)) = 1"
    using currentConcurrent_balanced [of id 0 idleServer freshWriter "request ''GET'' ''1048576'' []"]
    by (auto simp: m parseBytes_1048576 s pk)
  have b: "\<exists>out. downloadHandler id 0 idleServer (brokenWriter 0) (request ''GET'' ''1048576'' []) = Some out \<and>
      currentConcurrent (stats (server out)) = 0 \<and> peakConcurrent (stats (server out)) = 1"
    using currentConcurrent_balanced [of id 0 idleServer "brokenWriter 0" "request ''GET'' ''1048576'' []"]
    by (auto simp: m parseBytes_1048576 s pk)
  have c: "\<exists>out. downloadHandler id 0 idleServer freshWriter (requestNoBytes ''GET'') = Some out \<and>
      server out = idleServer"
    using currentConcurrent_balanced [of id 0 idleServer freshWriter "requestNoBytes ''GET''"]
    by (auto simp: m parseBytes_missing)
  have d: "currentConcurrent (stats (server (uploadHandler id 0 idleServer freshWriter
      ((request ''POST'' ''1048576'' [])\<lparr>BodyErr := Some ''unexpected EOF''\<rparr>)))) = 0"
    using currentConcurrent_balanced [of id 0 idleServer freshWriter
        "(request ''POST'' ''1048576'' [])\<lparr>BodyErr := Some ''unexpected EOF''\<rparr>"]
    by (simp add: s)
  show ?thesis using a b c d by blast
qed

section \<open>The upload path\<close>

lemma uploadBody_ok:
  assumes "BodyErr r = None"
  shows "uploadBody now srv w r N =
     (srv\<lparr>stats := (stats srv)\<lparr>totalUploads := totalUploads (stats srv) + 1,
         totalBytesUp := totalBytesUp (stats srv) + word_of_nat (length (Body r)),
         totalConnections := totalConnections (stats srv) + 1,
         lastRequestTime := now\<rparr>,
        logged := logged srv @
          (if word_of_nat (length (Body r)) \<noteq> N
           then [UploadWarning (RemoteAddr r) N (word_of_nat (length (Body r)))] else []) @
          [UploadLog (RemoteAddr r) (word_of_nat (length (Body r)))]\<rparr>,
      fst (Write (WriteHeader (Header_Set w ''Content-Type'' ''application/json'') StatusOK)
             (okBody (word_of_nat (length (Body r))))))"
  using assms by (simp add: uploadBody_def io_Copy_Discard_def Let_def Printf_def)

text \<open>
  C2.  A POST request whose \<open>bytes\<close> parameter parses to a valid \<open>N\<close> and whose body of
  \<open>length (Body r)\<close> bytes is read without error; \<open>M\<close> is that length as an int64.  The
  handler answers 200, its one write is the JSON text with the decimal text of \<open>M\<close>,
  totalUploads and totalConnections grow by 1, totalBytesUp by \<open>M\<close>, lastRequestTime is
  the current time, the download counters stay, and the log gains the warning exactly
  when \<open>M \<noteq> N\<close>, followed by the upload line.  \<open>N\<close> enters the result nowhere else.
\<close>

theorem upload_counts_received_bytes:
  assumes "Method r = ''POST''"
    and "ParseInt (Values_Get (Query r) ''bytes'') = Inr N"
    and "minBytes \<le>s N" and "N \<le>s maxBytes"
    and "BodyErr r = None"
    and "StatusCode w = None"
    and "M = word_of_nat (length (Body r))"
  shows \<open>StatusCode (response (uploadHandler quote now srv w r)) = Some 200 \<and>
     Written (response (uploadHandler quote now srv w r)) =
       (if ConnErr w (WriteCalls w) = None
        then Written w @ [''{"ok":true,"bytes":'' @ FormatInt M @ ''}''] else Written w) \<and>
     WriteCalls (response (uploadHandler quote now srv w r)) = WriteCalls w + 1 \<and>
     totalUploads (stats (server (uploadHandler quote now srv w r))) = totalUploads (stats srv) + 1 \<and>
     totalBytesUp (stats (server (uploadHandler quote now srv w r))) = totalBytesUp (stats srv) + M \<and>
     totalConnections (stats (server (uploadHandler quote now srv w r))) =
       totalConnections (stats srv) + 1 \<and>
     lastRequestTime (stats (server (uploadHandler quote now srv w r))) = now \<and>
     totalDownloads (stats (server (uploadHandler quote now srv w r))) = totalDownloads (stats srv) \<and>
     totalBytesDown (stats (server (uploadHandler quote now srv w r))) = totalBytesDown (stats srv) \<and>
     logged (server (uploadHandler quote now srv w r)) =
       logged srv @ (if M \<noteq> N then [UploadWarning (RemoteAddr r) N M] else []) @
       [UploadLog (RemoteAddr r) M] \<and>
     bodyRead (uploadHandler quote now srv w r) = length (Body r) \<and>
     (length (Body r) < 2 ^ 63 \<longrightarrow>
        sint M = int (length (Body r)) \<and> FormatInt M = digits10 (length (Body r)))\<close>
proof -
  have pb: "parseBytes quote r = Inr N"
    using assms(2,3,4) by (rule parseBytes_valid)
  have h: "uploadHandler quote now srv w r =
     \<lparr>server = deferredDecrement (fst (uploadBody now (enterTransfer srv) w r N)),
      response = snd (uploadBody now (enterTransfer srv) w r N),
      bodyRead = length (Body r)\<rparr>"
    using assms(1) pb by (simp add: uploadHandler_def split: prod.splits)
  have f: "length (Body r) < 2 ^ 63 \<Longrightarrow> sint M = int (length (Body r)) \<and>
        FormatInt M = digits10 (length (Body r))"
    using sint_of_nat64 [of "length (Body r)"] by (simp add: FormatInt_def assms(7))
  show ?thesis
    using assms(6) f
    by (simp add: h uploadBody_ok [OF assms(5)] Write_fields StatusOK_def okBody_def
        assms(7) [symmetric])
qed


lemma FormatInt_1500000: "FormatInt 1500000 = ''1500000''"
  by (simp add: FormatInt_def digits10_small digits10_big digitChar_table)

theorem upload_counts_received_bytes_witness:
  \<open>StatusCode (response (uploadHandler id 7 idleServer freshWriter
      (request ''POST'' ''2097152'' (replicate 1500000 (CHR ''x''))))) = Some 200 \<and>
   Written (response (uploadHandler id 7 idleServer freshWriter
      (request ''POST'' ''2097152'' (replicate 1500000 (CHR ''x''))))) =
     [''{"ok":true,"bytes":1500000}''] \<and>
   totalUploads (stats (server (uploadHandler id 7 idleServer freshWriter
      (request ''POST'' ''2097152'' (replicate 1500000 (CHR ''x'')))))) = 1 \<and>
   totalBytesUp (stats (server (uploadHandler id 7 idleServer freshWriter
      (request ''POST'' ''2097152'' (replicate 1500000 (CHR ''x'')))))) = 1500000 \<and>
   totalConnections (stats (server (uploadHandler id 7 idleServer freshWriter
      (request ''POST'' ''2097152'' (replicate 1500000 (CHR ''x'')))))) = 1 \<and>
   lastRequestTime (stats (server (uploadHandler id 7 idleServer freshWriter
      (request ''POST'' ''2097152'' (replicate 1500000 (CHR ''x'')))))) = 7 \<and>
   logged (server (uploadHandler id 7 idleServer freshWriter
      (request ''POST'' ''2097152'' (replicate 1500000 (CHR ''x''))))) =
     [UploadWarning ''192.0.2.1:40000'' 2097152 1500000, UploadLog ''192.0.2.1:40000'' 1500000]\<close>
proof -
  let ?r = "request ''POST'' ''2097152'' (replicate 1500000 (CHR ''x''))"
  have v: "Method ?r = ''POST''"
    "ParseInt (Values_Get (Query ?r) ''bytes'') = Inr 2097152"
    "minBytes \<le>s (2097152 :: int64)" "(2097152 :: int64) \<le>s maxBytes"
    "BodyErr ?r = None" "StatusCode freshWriter = None"
    "(1500000 :: int64) = word_of_nat (length (Body ?r))"
    by (simp_all add: request_def Values_Get_def ParseInt_2097152 minBytes_def maxBytes_def
        freshWriter_def)
  have w: "ConnErr freshWriter (WriteCalls freshWriter) = None" "Written freshWriter = []"
    by (simp_all add: freshWriter_def)
  have s: "totalUploads (stats idleServer) = 0" "totalBytesUp (stats idleServer) = 0"
    "totalConnections (stats idleServer) = 0" "logged idleServer = []"
    by (simp_all add: idleServer_def)
  have a: "RemoteAddr ?r = ''192.0.2.1:40000''" by (simp add: request_def)
  show ?thesis
    using upload_counts_received_bytes [OF v, of id 7 idleServer]
    by (simp add: w s a FormatInt_1500000)
qed

section \<open>The client's tests\<close>

lemma Seconds_exact_eq: "Seconds exact_ops d = real_of_int (sint d) / 1000000000"
proof -
  let ?k = "sint d"
  have "?k sdiv 1000000000 * 1000000000 + ?k smod 1000000000 = ?k"
    by (rule sdiv_mult_smod_eq)
  then have "real_of_int ?k =
      real_of_int (?k sdiv 1000000000) * 1000000000 + real_of_int (?k smod 1000000000)"
    by (metis of_int_add of_int_mult of_int_numeral)
  then show ?thesis
    by (simp add: Seconds_def exact_ops_def field_simps)
qed

lemma Seconds_exact_nonzero: "d \<noteq> 0 \<Longrightarrow> Seconds exact_ops d \<noteq> 0"
  by (simp add: Seconds_exact_eq signed_eq_0_iff)

text \<open>
  C7, amended.  runDownloadTest returns a rate and a duration exactly when the request is
  built, \<^verbatim>\<open>Do\<close> returns a response, its status is 200, its body is read to the end
  without error, and the elapsed time is not zero; the duration is the elapsed time and
  the rate is \<open>float64(bytesDownloaded) / elapsed.Seconds() * 8 / 1000000\<close> in float64
  arithmetic.  It returns an error exactly when one of the five conditions fails, and it
  never panics.  In exact arithmetic the divisor \<open>elapsed.Seconds()\<close> of a rate that is
  returned is not zero.
\<close>

theorem runDownloadTest_result:
  "(runDownloadTest F config t = Done (speed, elapsed) \<longleftrightarrow>
      NewRequestErr t ''GET'' (downURL config) = None \<and>
      (\<exists>resp. Do t \<lparr>ReqMethod = ''GET'', ReqURL = downURL config, ReqBody = [],
                      ReqHeader = Map.empty\<rparr> = Inr resp \<and>
         RespStatusCode resp = 200 \<and> RespBodyErr resp = None \<and>
         elapsed = doTime t + copyTime t \<and> elapsed \<noteq> 0 \<and>
         speed = f64_div F (f64_mul F
                   (f64_div F (f64_of_int F (sint (word_of_nat (length (RespBody resp)) :: int64)))
                      (Seconds F elapsed))
                   (f64_of_int F 8)) (f64_of_int F 1000000))) \<and>
   ((\<exists>err. runDownloadTest F config t = Failed err) \<longleftrightarrow>
      NewRequestErr t ''GET'' (downURL config) \<noteq> None \<or>
      (\<exists>err. Do t \<lparr>ReqMethod = ''GET'', ReqURL = downURL config, ReqBody = [],
                     ReqHeader = Map.empty\<rparr> = Inl err) \<or>
      (\<exists>resp. Do t \<lparr>ReqMethod = ''GET'', ReqURL = downURL config, ReqBody = [],
                      ReqHeader = Map.empty\<rparr> = Inr resp \<and>
         (RespStatusCode resp \<noteq> 200 \<or> RespBodyErr resp \<noteq> None \<or>
          doTime t + copyTime t = 0))) \<and>
   (\<forall>p. runDownloadTest F config t \<noteq> Panic p) \<and>
   (elapsed \<noteq> 0 \<longrightarrow> Seconds exact_ops elapsed \<noteq> 0)"
proof -
  have a: "runDownloadTest F config t = Done (speed, elapsed) \<longleftrightarrow>
      NewRequestErr t ''GET'' (downURL config) = None \<and>
      (\<exists>resp. Do t \<lparr>ReqMethod = ''GET'', ReqURL = downURL config, ReqBody = [],
                      ReqHeader = Map.empty\<rparr> = Inr resp \<and>
         RespStatusCode resp = 200 \<and> RespBodyErr resp = None \<and>
         elapsed = doTime t + copyTime t \<and> elapsed \<noteq> 0 \<and>
         speed = f64_div F (f64_mul F
                   (f64_div F (f64_of_int F (sint (word_of_nat (length (RespBody resp)) :: int64)))
                      (Seconds F elapsed))
                   (f64_of_int F 8)) (f64_of_int F 1000000))"
    by (auto simp: runDownloadTest_def Let_def StatusOK_int_def speedMbps_def
        split: option.splits sum.splits)
  have b: "(\<exists>err. runDownloadTest F config t = Failed err) \<longleftrightarrow>
      NewRequestErr t ''GET'' (downURL config) \<noteq> None \<or>
      (\<exists>err. Do t \<lparr>ReqMethod = ''GET'', ReqURL = downURL config, ReqBody = [],
                     ReqHeader = Map.empty\<rparr> = Inl err) \<or>
      (\<exists>resp. Do t \<lparr>ReqMethod = ''GET'', ReqURL = downURL config, ReqBody = [],
                      ReqHeader = Map.empty\<rparr> = Inr resp \<and>
         (RespStatusCode resp \<noteq> 200 \<or> RespBodyErr resp \<noteq> None \<or>
          doTime t + copyTime t = 0))"
    by (auto simp: runDownloadTest_def Let_def StatusOK_int_def
        split: option.splits sum.splits)
  have c: "\<forall>p. runDownloadTest F config t \<noteq> Panic p"
    by (auto simp: runDownloadTest_def Let_def split: option.splits sum.splits)
  have d: "elapsed \<noteq> 0 \<longrightarrow> Seconds exact_ops elapsed \<noteq> 0"
    by (simp add: Seconds_exact_nonzero)
  show ?thesis by (rule conjI [OF a conjI [OF b conjI [OF c d]]])
qed

lemma Seconds_exact: "Seconds exact_ops 1000000000 = 1"
  by (simp add: Seconds_def exact_ops_def signed_divide_int_def signed_modulo_int_def)

lemma elapsed_answering: "doTime (answering resp) + copyTime (answering resp) = 1000000000"
  by (simp add: answering_def)

theorem runDownloadTest_result_witness:
  "runDownloadTest exact_ops (clientConfig ''down'' 10 1)
     (answering \<lparr>RespStatusCode = 200, RespBody = replicate 10000000 (CHR 0x00),
                   RespBodyErr = None\<rparr>) = Done (80, 1000000000)"
proof -
  let ?resp = "\<lparr>RespStatusCode = 200, RespBody = replicate 10000000 (CHR 0x00),
                   RespBodyErr = None\<rparr>"
  have "runDownloadTest exact_ops (clientConfig ''down'' 10 1) (answering ?resp)
      = Done (80, 1000000000) \<longleftrightarrow> True"
    unfolding conjunct1 [OF runDownloadTest_result]
    by (simp add: elapsed_answering Seconds_exact)
       (simp add: answering_def exact_ops_def)
  then show ?thesis by simp
qed

text \<open>
  C7 as stated fails: the request is built, \<^verbatim>\<open>Do\<close> returns a response with status 200
  and the elapsed time is one second, but the read of the body ends with an error, and
  the test fails.
\<close>

theorem read_failure_fails_the_test:
  "NewRequestErr (answering \<lparr>RespStatusCode = 200, RespBody = replicate 4096 (CHR 0x00),
       RespBodyErr = Some ''unexpected EOF''\<rparr>) ''GET'' (downURL (clientConfig ''down'' 10 1)) = None \<and>
   Do (answering \<lparr>RespStatusCode = 200, RespBody = replicate 4096 (CHR 0x00),
       RespBodyErr = Some ''unexpected EOF''\<rparr>)
     \<lparr>ReqMethod = ''GET'', ReqURL = downURL (clientConfig ''down'' 10 1), ReqBody = [],
      ReqHeader = Map.empty\<rparr> =
     Inr \<lparr>RespStatusCode = 200, RespBody = replicate 4096 (CHR 0x00),
          RespBodyErr = Some ''unexpected EOF''\<rparr> \<and>
   doTime (answering \<lparr>RespStatusCode = 200, RespBody = replicate 4096 (CHR 0x00),
       RespBodyErr = Some ''unexpected EOF''\<rparr>) +
   copyTime (answering \<lparr>RespStatusCode = 200, RespBody = replicate 4096 (CHR 0x00),
       RespBodyErr = Some ''unexpected EOF''\<rparr>) = 1000000000 \<and>
   runDownloadTest exact_ops (clientConfig ''down'' 10 1)
     (answering \<lparr>RespStatusCode = 200, RespBody = replicate 4096 (CHR 0x00),
       RespBodyErr = Some ''unexpected EOF''\<rparr>) = Failed ''read failed: unexpected EOF''"
  by (simp add: runDownloadTest_def answering_def StatusOK_int_def)

text \<open>
  C8.  When runUploadTest returns a rate, the duration is the time from the start to the
  return of \<^verbatim>\<open>Do\<close> plus the time of the read of the response body, and the rate is
  \<open>float64(numBytes) / elapsed.Seconds() * 8 / 1000000\<close> for the declared
  \<open>numBytes = Size * 1000000\<close>.  The body of the response, which carries the server's
  count, has no influence: replacing every response by one with the same status gives the
  same result.
\<close>

theorem runUploadTest_uses_declared_bytes:
  "(runUploadTest F config t = Done (speed, elapsed) \<longrightarrow>
      elapsed = doTime t + copyTime t \<and>
      speed = f64_div F (f64_mul F
                (f64_div F (f64_of_int F (sint (Size config * 1000000))) (Seconds F elapsed))
                (f64_of_int F 8)) (f64_of_int F 1000000)) \<and>
   ((\<forall>resp. RespStatusCode (report resp) = RespStatusCode resp) \<longrightarrow>
      runUploadTest F config (t\<lparr>Do := \<lambda>req. map_sum id report (Do t req)\<rparr>) =
      runUploadTest F config t)"
proof -
  have a: "runUploadTest F config t = Done (speed, elapsed) \<longrightarrow>
      elapsed = doTime t + copyTime t \<and>
      speed = f64_div F (f64_mul F
                (f64_div F (f64_of_int F (sint (Size config * 1000000))) (Seconds F elapsed))
                (f64_of_int F 8)) (f64_of_int F 1000000)"
    by (auto simp: runUploadTest_def Let_def speedMbps_def split: option.splits sum.splits if_splits)
  have b: "runUploadTest F config (t\<lparr>Do := \<lambda>req. map_sum id report (Do t req)\<rparr>) =
      runUploadTest F config t" if "\<forall>resp. RespStatusCode (report resp) = RespStatusCode resp"
  proof -
    let ?req = "\<lparr>ReqMethod = ''POST'', ReqURL = upURL config,
        ReqBody = replicate (nat (sint (Size config * 1000000))) (CHR 0x00),
        ReqHeader = [''Content-Type'' \<mapsto> [''application/octet-stream'']]\<rparr>"
    show ?thesis
      using that
      by (cases "Do t ?req") (simp_all add: runUploadTest_def Let_def split: option.splits)
  qed
  show ?thesis using a b by blast
qed

theorem runUploadTest_uses_declared_bytes_witness:
  \<open>runUploadTest exact_ops (clientConfig ''up'' 10 1)
     (answering \<lparr>RespStatusCode = 200, RespBody = ''{"ok":true,"bytes":4096}'',
                   RespBodyErr = None\<rparr>) = Done (80, 1000000000) \<and>
   runUploadTest exact_ops (clientConfig ''up'' 10 1)
     ((answering \<lparr>RespStatusCode = 200, RespBody = ''{"ok":true,"bytes":4096}'',
                   RespBodyErr = None\<rparr>)
       \<lparr>Do := \<lambda>req. map_sum id (\<lambda>resp. resp\<lparr>RespBody := ''{"ok":true,"bytes":10000000}''\<rparr>)
           (Do (answering \<lparr>RespStatusCode = 200, RespBody = ''{"ok":true,"bytes":4096}'',
                   RespBodyErr = None\<rparr>) req)\<rparr>) = Done (80, 1000000000)\<close>
proof -
  let ?t = \<open>answering \<lparr>RespStatusCode = 200, RespBody = ''{"ok":true,"bytes":4096}'',
                   RespBodyErr = None\<rparr>\<close>
  let ?report = \<open>\<lambda>resp. resp\<lparr>RespBody := ''{"ok":true,"bytes":10000000}''\<rparr>\<close>
  obtain speed elapsed where d: "runUploadTest exact_ops (clientConfig ''up'' 10 1) ?t = Done (speed, elapsed)"
    by (simp add: runUploadTest_def answering_def clientConfig_def StatusOK_int_def Let_def
        makeslicePanics_def maxAlloc_def heapAddrBits_def word_sless_alt)
  from runUploadTest_uses_declared_bytes [of exact_ops "clientConfig ''up'' 10 1" ?t speed elapsed ?report] d
  have e: "elapsed = 1000000000"
    and s: "speed = f64_div exact_ops (f64_mul exact_ops
                (f64_div exact_ops (f64_of_int exact_ops (sint (Size (clientConfig ''up'' 10 1) * 1000000)))
                   (Seconds exact_ops elapsed))
                (f64_of_int exact_ops 8)) (f64_of_int exact_ops 1000000)"
    and i: "runUploadTest exact_ops (clientConfig ''up'' 10 1)
        (?t\<lparr>Do := \<lambda>req. map_sum id ?report (Do ?t req)\<rparr>) =
      runUploadTest exact_ops (clientConfig ''up'' 10 1) ?t"
    by (simp_all add: elapsed_answering)
  have s': "speed = 80"
    unfolding s e Seconds_exact by (simp add: exact_ops_def clientConfig_def)
  show ?thesis using d i by (simp add: s' e)
qed

section \<open>Decimal megabytes against binary bounds\<close>

lemma FormatInt_1000000: "FormatInt 1000000 = ''1000000''"
  by (simp add: FormatInt_def digits10_small digits10_big digitChar_table)

lemma FormatInt_400: "FormatInt 400 = ''400''"
  by (simp add: FormatInt_def digits10_small digits10_big digitChar_table)

lemma ParseInt_1000000: "ParseInt ''1000000'' = Inr 1000000"
  by (simp add: ParseInt_def ParseUint_def isDigit_def digitVal_def maxUint64_def)

lemma parseBytes_1000000:
  "Values_Get (Query r) ''bytes'' = ''1000000'' \<Longrightarrow>
   parseBytes quote r = Inl ''bytes must be between 1.00 MB and 10.00 GB''"
  by (simp add: parseBytes_def ParseInt_1000000 minBytes_def)

lemma validated_size:
  assumes "validate config = None" and "Mode config = modeClient"
  shows "1 \<le> sint (Size config)" "1 \<le> sint (Count config)"
    "isValidDirection (Direction config)" "Server config \<noteq> []"
  using assms by (auto simp: validate_def word_sless_alt split: if_splits)

lemma int64_eq_1: "sint (x :: int64) = 1 \<Longrightarrow> x = 1"
  by (metis of_nat_sint64 nat_one_as_int of_nat_1 zero_le_one nat_int of_nat_1_eq_iff semiring_1_class.of_nat_1)

text \<open>
  C6.  A client configuration that validate accepts with a size below 2 has size 1.  Both
  tests then ask for 1000000 bytes, which is below minBytes; the text \<open>1000000\<close> is the
  \<open>bytes\<close> parameter of both URLs.  parseBytes rejects every request with that
  parameter, both handlers answer it with 400 and leave the state alone, and both tests
  return an error for a response with status 400.
\<close>

theorem size_1_is_below_minBytes:
  assumes "validate config = None" and "Mode config = modeClient" and "Size config <s 2"
  shows "Size config = 1 \<and>
     Size config * 1000000 = 1000000 \<and> (1000000 :: int64) <s minBytes \<and>
     downURL config = ''http://'' @ Server config @ ''/__down?bytes=1000000'' \<and>
     upURL config = ''http://'' @ Server config @ ''/__up?bytes=1000000'' \<and>
     (\<forall>r. Values_Get (Query r) ''bytes'' = ''1000000'' \<longrightarrow>
        parseBytes quote r = Inl ''bytes must be between 1.00 MB and 10.00 GB'') \<and>
     (\<forall>r w. Values_Get (Query r) ''bytes'' = ''1000000'' \<and> Method r = ''GET'' \<and>
        StatusCode w = None \<longrightarrow>
        (\<exists>out. downloadHandler quote now srv w r = Some out \<and>
           StatusCode (response out) = Some 400 \<and> server out = srv)) \<and>
     (\<forall>r w. Values_Get (Query r) ''bytes'' = ''1000000'' \<and> Method r = ''POST'' \<and>
        StatusCode w = None \<longrightarrow>
        StatusCode (response (uploadHandler quote now srv w r)) = Some 400 \<and>
        server (uploadHandler quote now srv w r) = srv) \<and>
     (\<forall>t resp. NewRequestErr t ''GET'' (downURL config) = None \<and>
        Do t \<lparr>ReqMethod = ''GET'', ReqURL = downURL config, ReqBody = [],
              ReqHeader = Map.empty\<rparr> = Inr resp \<and>
        RespStatusCode resp = 400 \<longrightarrow>
        runDownloadTest F config t = Failed ''server returned status 400'') \<and>
     (\<forall>t resp. NewRequestErr t ''POST'' (upURL config) = None \<and>
        Do t \<lparr>ReqMethod = ''POST'', ReqURL = upURL config,
              ReqBody = replicate 1000000 (CHR 0x00),
              ReqHeader = [''Content-Type'' \<mapsto> [''application/octet-stream'']]\<rparr> = Inr resp \<and>
        RespStatusCode resp = 400 \<longrightarrow>
        runUploadTest F config t = Failed ''server returned status 400'')"
proof -
  have "sint (Size config) = 1"
    using validated_size(1) [OF assms(1,2)] assms(3) by (simp add: word_sless_alt)
  then have s: "Size config = 1" by (rule int64_eq_1)
  have b: "(1000000 :: int64) <s minBytes" by (simp add: minBytes_def)
  have d: "\<exists>out. downloadHandler quote now srv w r = Some out \<and>
           StatusCode (response out) = Some 400 \<and> server out = srv"
    if "Values_Get (Query r) ''bytes'' = ''1000000''" "Method r = ''GET''" "StatusCode w = None"
    for r w
    using that parseBytes_1000000 [OF that(1), of quote]
    by (simp add: downloadHandler_def http_Error_fields StatusBadRequest_def)
  have u: "StatusCode (response (uploadHandler quote now srv w r)) = Some 400 \<and>
        server (uploadHandler quote now srv w r) = srv"
    if "Values_Get (Query r) ''bytes'' = ''1000000''" "Method r = ''POST''" "StatusCode w = None"
    for r w
    using that parseBytes_1000000 [OF that(1), of quote]
    by (simp add: uploadHandler_def http_Error_fields StatusBadRequest_def)
  have cd: "runDownloadTest F config t = Failed ''server returned status 400''"
    if "NewRequestErr t ''GET'' (downURL config) = None"
       "Do t \<lparr>ReqMethod = ''GET'', ReqURL = downURL config, ReqBody = [],
              ReqHeader = Map.empty\<rparr> = Inr resp" "RespStatusCode resp = 400"
    for t resp
    using that by (simp add: runDownloadTest_def StatusOK_int_def FormatInt_400)
  have cu: "runUploadTest F config t = Failed ''server returned status 400''"
    if "NewRequestErr t ''POST'' (upURL config) = None"
       "Do t \<lparr>ReqMethod = ''POST'', ReqURL = upURL config,
              ReqBody = replicate 1000000 (CHR 0x00),
              ReqHeader = [''Content-Type'' \<mapsto> [''application/octet-stream'']]\<rparr> = Inr resp"
       "RespStatusCode resp = 400"
    for t resp
    using that
    by (simp add: runUploadTest_def StatusOK_int_def FormatInt_400 s makeslicePanics_def
        maxAlloc_def heapAddrBits_def word_sless_alt)
  show ?thesis
    using s b d u cd cu parseBytes_1000000 [of _ quote]
    by (simp add: downURL_def upURL_def FormatInt_1000000)
qed

theorem size_1_is_below_minBytes_witness:
  "validate (clientConfig ''down'' 1 1) = None \<and>
   Mode (clientConfig ''down'' 1 1) = modeClient \<and>
   Size (clientConfig ''down'' 1 1) <s 2 \<and>
   downURL (clientConfig ''down'' 1 1) = ''http://127.0.0.1:8080/__down?bytes=1000000'' \<and>
   (\<exists>out. downloadHandler id 0 idleServer freshWriter (request ''GET'' ''1000000'' []) = Some out \<and>
      StatusCode (response out) = Some 400 \<and> server out = idleServer) \<and>
   runDownloadTest exact_ops (clientConfig ''down'' 1 1)
     (answering \<lparr>RespStatusCode = 400,
        RespBody = ''bytes must be between 1.00 MB and 10.00 GB'' @ [CHR 0x0A],
        RespBodyErr = None\<rparr>) = Failed ''server returned status 400''"
proof -
  let ?c = "clientConfig ''down'' 1 1"
  let ?resp = "\<lparr>RespStatusCode = 400,
        RespBody = ''bytes must be between 1.00 MB and 10.00 GB'' @ [CHR 0x0A],
        RespBodyErr = None\<rparr>"
  have v: "validate ?c = None" "Mode ?c = modeClient" "Size ?c <s 2"
    by (simp_all add: validate_def clientConfig_def isValidDirection_def directionDown_def
        modeClient_def modeServer_def word_sless_alt)
  have r: "Values_Get (Query (request ''GET'' ''1000000'' [])) ''bytes'' = ''1000000''"
    "Method (request ''GET'' ''1000000'' []) = ''GET''" "StatusCode freshWriter = None"
    by (simp_all add: request_def Values_Get_def freshWriter_def)
  have t: "NewRequestErr (answering ?resp) ''GET'' (downURL ?c) = None"
    "Do (answering ?resp) \<lparr>ReqMethod = ''GET'', ReqURL = downURL ?c, ReqBody = [],
              ReqHeader = Map.empty\<rparr> = Inr ?resp" "RespStatusCode ?resp = 400"
    by (simp_all add: answering_def)
  note th = size_1_is_below_minBytes [OF v, of id 0 idleServer exact_ops]
  have u: "downURL ?c = ''http://127.0.0.1:8080/__down?bytes=1000000''"
    using th by (simp add: clientConfig_def)
  have d: "\<exists>out. downloadHandler id 0 idleServer freshWriter (request ''GET'' ''1000000'' []) = Some out \<and>
      StatusCode (response out) = Some 400 \<and> server out = idleServer"
    using th r by blast
  have c: "runDownloadTest exact_ops ?c (answering ?resp) = Failed ''server returned status 400''"
    using th t by blast
  show ?thesis using v u d c by simp
qed

section \<open>The orchestrator\<close>

lemma sint_pred64: "1 \<le> sint (c :: int64) \<Longrightarrow> sint (c - 1) = sint c - 1"
proof -
  assume a: "1 \<le> sint c"
  have "sint (c - 1) = signed_take_bit 63 (sint c - 1)"
    by (simp add: sint_word_diff)
  also have "\<dots> = sint c - 1"
    using a sint_bounds64(2) [of c] by (intro signed_take_bit_int_eq_self) simp_all
  finally show ?thesis .
qed

lemma emit_fields [simp]:
  "printed (emit run e) = printed run @ [e]"
  "called (emit run e) = called run"
  "panicked (emit run e) = panicked run"
  by (simp_all add: emit_def)

lemma call_fields [simp]:
  "printed (call run d) = printed run"
  "called (call run d) = called run @ [d]"
  "panicked (call run d) = panicked run"
  by (simp_all add: call_def)

text \<open>Iterations that succeed carry the loop from index \<open>i\<close> to index \<open>j\<close>.\<close>

lemma bothLoop_successes:
  assumes "\<forall>k. i \<le> k \<and> k < j \<longrightarrow>
      (\<exists>dur. runDownloadTest F config (world (2 * k)) = Done (ds k, dur)) \<and>
      (\<exists>dur. runUploadTest F config (world (2 * k + 1)) = Done (us k, dur))"
    and "j < nat (sint (Count config))"
    and "i \<le> j"
    and "length (called run) = 2 * i"
  shows "\<exists>dsl' usl' tt'.
     bothLoop F config world i (dsl, usl, tt, run) =
     bothLoop F config world j (dsl', usl', tt',
       run\<lparr>printed := printed run @ concat (map (\<lambda>k. [BothLine (ds k) (us k), Sleep]) [i..<j]),
           called := called run @ concat (replicate (j - i) [''down'', ''up''])\<rparr>)"
  using assms
proof (induction "j - i" arbitrary: i dsl usl tt run)
  case 0
  then have "i = j" by simp
  then show ?case by auto
next
  case (Suc d)
  then have lt: "i < j" by simp
  from Suc.prems(1) lt obtain dd ud where
    dn: "runDownloadTest F config (world (2 * i)) = Done (ds i, dd)" and
    up: "runUploadTest F config (world (2 * i + 1)) = Done (us i, ud)"
    by (metis le_refl)
  have c: "int i < sint (Count config)" using lt Suc.prems(2) by simp
  have c1: "int i < sint (Count config - 1)"
    using lt Suc.prems(2) sint_pred64 [of "Count config"] by simp
  let ?run = "run\<lparr>printed := printed run @ [BothLine (ds i) (us i), Sleep],
                  called := called run @ [''down'', ''up'']\<rparr>"
  have it: "bothIteration F config world i (dsl, usl, tt, run) =
      Continue (dsl[i := ds i], usl[i := us i], tt + dd + ud, ?run)"
    using dn up c1 Suc.prems(4)
    by (simp add: bothIteration_def Let_def emit_def call_def)
  have step: "bothLoop F config world i (dsl, usl, tt, run) =
      bothLoop F config world (i + 1) (dsl[i := ds i], usl[i := us i], tt + dd + ud, ?run)"
    by (subst bothLoop.simps) (simp add: c it)
  have p1: "\<forall>k. i + 1 \<le> k \<and> k < j \<longrightarrow>
      (\<exists>dur. runDownloadTest F config (world (2 * k)) = Done (ds k, dur)) \<and>
      (\<exists>dur. runUploadTest F config (world (2 * k + 1)) = Done (us k, dur))"
    using Suc.prems(1) by simp
  have p4: "length (called ?run) = 2 * (i + 1)" using Suc.prems(4) by simp
  have d: "d = j - (i + 1)" using Suc.hyps(2) by simp
  from Suc.hyps(1) [OF d p1 Suc.prems(2) _ p4, of "dsl[i := ds i]" "usl[i := us i]" "tt + dd + ud"] lt
  obtain dsl' usl' tt' where
    ih: "bothLoop F config world (i + 1) (dsl[i := ds i], usl[i := us i], tt + dd + ud, ?run) =
      bothLoop F config world j (dsl', usl', tt',
        ?run\<lparr>printed := printed ?run @ concat (map (\<lambda>k. [BothLine (ds k) (us k), Sleep]) [i + 1..<j]),
            called := called ?run @ concat (replicate (j - (i + 1)) [''down'', ''up''])\<rparr>)"
    by auto
  have lst: "[i..<j] = i # [i + 1..<j]" using lt by (simp add: upt_conv_Cons)
  have rep: "replicate (j - i) [''down'', ''up''] = [''down'', ''up''] # replicate (j - (i + 1)) [''down'', ''up'']"
    using lt by (cases "j - i") simp_all
  show ?case
    unfolding step ih
    by (intro exI [of _ dsl'] exI [of _ usl'] exI [of _ tt']) (simp add: lst rep)
qed

lemma singleLoop_successes:
  assumes "\<forall>k. i \<le> k \<and> k < j \<longrightarrow>
      (\<exists>dur. runTest dir F config (world k) = Done (ss k, dur))"
    and "j < nat (sint (Count config))"
    and "i \<le> j"
    and "length (called run) = i"
  shows "\<exists>sl' tt'.
     singleLoop dir F config world i (sl, tt, run) =
     singleLoop dir F config world j (sl', tt',
       run\<lparr>printed := printed run @ concat (map (\<lambda>k. [SpeedLine (ss k), Sleep]) [i..<j]),
           called := called run @ replicate (j - i) dir\<rparr>)"
  using assms
proof (induction "j - i" arbitrary: i sl tt run)
  case 0
  then have "i = j" by simp
  then show ?case by auto
next
  case (Suc d)
  then have lt: "i < j" by simp
  from Suc.prems(1) lt obtain dd where
    dn: "runTest dir F config (world i) = Done (ss i, dd)"
    by (metis le_refl)
  have c: "int i < sint (Count config)" using lt Suc.prems(2) by simp
  have c1: "int i < sint (Count config - 1)"
    using lt Suc.prems(2) sint_pred64 [of "Count config"] by simp
  let ?run = "run\<lparr>printed := printed run @ [SpeedLine (ss i), Sleep],
                  called := called run @ [dir]\<rparr>"
  have it: "singleIteration dir F config world i (sl, tt, run) =
      Continue (sl[i := ss i], tt + dd, ?run)"
    using dn c1 Suc.prems(4)
    by (simp add: singleIteration_def Let_def emit_def call_def)
  have step: "singleLoop dir F config world i (sl, tt, run) =
      singleLoop dir F config world (i + 1) (sl[i := ss i], tt + dd, ?run)"
    by (subst singleLoop.simps) (simp add: c it)
  have p1: "\<forall>k. i + 1 \<le> k \<and> k < j \<longrightarrow>
      (\<exists>dur. runTest dir F config (world k) = Done (ss k, dur))"
    using Suc.prems(1) by simp
  have p4: "length (called ?run) = i + 1" using Suc.prems(4) by simp
  have d: "d = j - (i + 1)" using Suc.hyps(2) by simp
  from Suc.hyps(1) [OF d p1 Suc.prems(2) _ p4, of "sl[i := ss i]" "tt + dd"] lt
  obtain sl' tt' where
    ih: "singleLoop dir F config world (i + 1) (sl[i := ss i], tt + dd, ?run) =
      singleLoop dir F config world j (sl', tt',
        ?run\<lparr>printed := printed ?run @ concat (map (\<lambda>k. [SpeedLine (ss k), Sleep]) [i + 1..<j]),
            called := called ?run @ replicate (j - (i + 1)) dir\<rparr>)"
    by auto
  have lst: "[i..<j] = i # [i + 1..<j]" using lt by (simp add: upt_conv_Cons)
  have rep: "replicate (j - i) dir = dir # replicate (j - (i + 1)) dir"
    using lt by (cases "j - i") simp_all
  show ?case
    unfolding step ih
    by (intro exI [of _ sl'] exI [of _ tt']) (simp add: lst rep)
qed

lemma bothIteration_down_fails:
  assumes "length (called run) = k" and "runDownloadTest F config (world k) = Failed err"
  shows "bothIteration F config world i (dsl, usl, tt, run) =
     Return (emit (call run ''down'')
       (Line (''ERROR: download test '' @ FormatInt (word_of_nat (i + 1)) @ '': '' @ err)))"
  using assms by (simp add: bothIteration_def)

lemma bothIteration_up_fails:
  assumes "length (called run) = k" and "runDownloadTest F config (world k) = Done (d, dur)"
    and "runUploadTest F config (world (k + 1)) = Failed err"
  shows "bothIteration F config world i (dsl, usl, tt, run) =
     Return (emit (call (call run ''down'') ''up'')
       (Line (''ERROR: upload test '' @ FormatInt (word_of_nat (i + 1)) @ '': '' @ err)))"
  using assms by (simp add: bothIteration_def Let_def)

lemma singleIteration_fails:
  assumes "length (called run) = k" and "runTest dir F config (world k) = Failed err"
  shows "singleIteration dir F config world i (sl, tt, run) =
     Return (emit (call run dir)
       (Line (''ERROR: test '' @ FormatInt (word_of_nat (i + 1)) @ '': '' @ err)))"
  using assms by (simp add: singleIteration_def)

lemma length_concat_pairs: "length (concat (replicate j [a, b])) = 2 * j"
  by (induction j) simp_all

text \<open>The two allocations of the client, in numbers.\<close>

lemma makeslicePanics_byte: "makeslicePanics 1 n \<longleftrightarrow> n <s 0 \<or> 2 ^ 48 < sint n"
  by (simp add: makeslicePanics_def maxAlloc_def heapAddrBits_def)

lemma makeslicePanics_float64: "makeslicePanics 8 n \<longleftrightarrow> n <s 0 \<or> 2 ^ 45 < sint n"
  by (simp add: makeslicePanics_def maxAlloc_def heapAddrBits_def)

lemma failed_test_general:
  assumes "called run = []"
    and "j < nat (sint (Count config))"
    and "\<not> makeslicePanics 8 (Count config)"
  shows
   "((\<forall>k<j. (\<exists>dur. runDownloadTest F config (world (2 * k)) = Done (ds k, dur)) \<and>
            (\<exists>dur. runUploadTest F config (world (2 * k + 1)) = Done (us k, dur))) \<and>
     runDownloadTest F config (world (2 * j)) = Failed err \<longrightarrow>
     runBothTests F config world run =
       run\<lparr>printed := printed run @
              [Line ''down     | up       | Mbps'', Line (replicate 30 (CHR ''-''))] @
              concat (map (\<lambda>k. [BothLine (ds k) (us k), Sleep]) [0..<j]) @
              [Line (''ERROR: download test '' @ FormatInt (word_of_nat (j + 1)) @ '': '' @ err)],
           called := concat (replicate j [''down'', ''up'']) @ [''down'']\<rparr>) \<and>
    ((\<forall>k<j. (\<exists>dur. runDownloadTest F config (world (2 * k)) = Done (ds k, dur)) \<and>
            (\<exists>dur. runUploadTest F config (world (2 * k + 1)) = Done (us k, dur))) \<and>
     (\<exists>dur. runDownloadTest F config (world (2 * j)) = Done (ds j, dur)) \<and>
     runUploadTest F config (world (2 * j + 1)) = Failed err \<longrightarrow>
     runBothTests F config world run =
       run\<lparr>printed := printed run @
              [Line ''down     | up       | Mbps'', Line (replicate 30 (CHR ''-''))] @
              concat (map (\<lambda>k. [BothLine (ds k) (us k), Sleep]) [0..<j]) @
              [Line (''ERROR: upload test '' @ FormatInt (word_of_nat (j + 1)) @ '': '' @ err)],
           called := concat (replicate j [''down'', ''up'']) @ [''down'', ''up'']\<rparr>) \<and>
    ((\<forall>k<j. \<exists>dur. runTest dir F config (world k) = Done (ss k, dur)) \<and>
     runTest dir F config (world j) = Failed err \<longrightarrow>
     runSingleTests dir F config world run =
       run\<lparr>printed := printed run @
              [Line (dir @ replicate (8 - length dir) (CHR '' '')), Line (replicate 18 (CHR ''-''))] @
              concat (map (\<lambda>k. [SpeedLine (ss k), Sleep]) [0..<j]) @
              [Line (''ERROR: test '' @ FormatInt (word_of_nat (j + 1)) @ '': '' @ err)],
           called := replicate j dir @ [dir]\<rparr>)"
proof (intro conjI impI)
  let ?hdr = "[Line ''down     | up       | Mbps'', Line (replicate 30 (CHR ''-''))]"
  let ?run2 = "run\<lparr>printed := printed run @ ?hdr\<rparr>"
  let ?zs = "replicate (nat (sint (Count config))) (f64_of_int F 0)"
  have cj: "int j < sint (Count config)" using assms(2) by simp
  have start: "runBothTests F config world run = bothLoop F config world 0 (?zs, ?zs, 0, ?run2)"
    using assms(3) by (simp add: runBothTests_def Let_def emit_def)
  have len: "length (called ?run2) = 2 * 0" using assms(1) by simp
  {
    assume a: "(\<forall>k<j. (\<exists>dur. runDownloadTest F config (world (2 * k)) = Done (ds k, dur)) \<and>
            (\<exists>dur. runUploadTest F config (world (2 * k + 1)) = Done (us k, dur))) \<and>
       runDownloadTest F config (world (2 * j)) = Failed err"
    then have ok: "\<forall>k. 0 \<le> k \<and> k < j \<longrightarrow>
        (\<exists>dur. runDownloadTest F config (world (2 * k)) = Done (ds k, dur)) \<and>
        (\<exists>dur. runUploadTest F config (world (2 * k + 1)) = Done (us k, dur))" by simp
    from bothLoop_successes [OF ok assms(2) _ len, of ?zs ?zs 0]
    obtain dsl' usl' tt' where
      l: "bothLoop F config world 0 (?zs, ?zs, 0, ?run2) =
        bothLoop F config world j (dsl', usl', tt',
          ?run2\<lparr>printed := printed ?run2 @ concat (map (\<lambda>k. [BothLine (ds k) (us k), Sleep]) [0..<j]),
              called := called ?run2 @ concat (replicate (j - 0) [''down'', ''up''])\<rparr>)"
      by auto
    show "runBothTests F config world run =
       run\<lparr>printed := printed run @ ?hdr @
              concat (map (\<lambda>k. [BothLine (ds k) (us k), Sleep]) [0..<j]) @
              [Line (''ERROR: download test '' @ FormatInt (word_of_nat (j + 1)) @ '': '' @ err)],
           called := concat (replicate j [''down'', ''up'']) @ [''down'']\<rparr>"
      unfolding start l
      apply (subst bothLoop.simps)
      apply (subst bothIteration_down_fails [where k = "2 * j" and err = err])
      using a cj assms(1)
      by (simp_all add: length_concat_pairs emit_def call_def)
  }
  {
    assume a: "(\<forall>k<j. (\<exists>dur. runDownloadTest F config (world (2 * k)) = Done (ds k, dur)) \<and>
            (\<exists>dur. runUploadTest F config (world (2 * k + 1)) = Done (us k, dur))) \<and>
       (\<exists>dur. runDownloadTest F config (world (2 * j)) = Done (ds j, dur)) \<and>
       runUploadTest F config (world (2 * j + 1)) = Failed err"
    then have ok: "\<forall>k. 0 \<le> k \<and> k < j \<longrightarrow>
        (\<exists>dur. runDownloadTest F config (world (2 * k)) = Done (ds k, dur)) \<and>
        (\<exists>dur. runUploadTest F config (world (2 * k + 1)) = Done (us k, dur))" by simp
    from a obtain dur where dj: "runDownloadTest F config (world (2 * j)) = Done (ds j, dur)"
      by blast
    from bothLoop_successes [OF ok assms(2) _ len, of ?zs ?zs 0]
    obtain dsl' usl' tt' where
      l: "bothLoop F config world 0 (?zs, ?zs, 0, ?run2) =
        bothLoop F config world j (dsl', usl', tt',
          ?run2\<lparr>printed := printed ?run2 @ concat (map (\<lambda>k. [BothLine (ds k) (us k), Sleep]) [0..<j]),
              called := called ?run2 @ concat (replicate (j - 0) [''down'', ''up''])\<rparr>)"
      by auto
    show "runBothTests F config world run =
       run\<lparr>printed := printed run @ ?hdr @
              concat (map (\<lambda>k. [BothLine (ds k) (us k), Sleep]) [0..<j]) @
              [Line (''ERROR: upload test '' @ FormatInt (word_of_nat (j + 1)) @ '': '' @ err)],
           called := concat (replicate j [''down'', ''up'']) @ [''down'', ''up'']\<rparr>"
      unfolding start l
      apply (subst bothLoop.simps)
      apply (subst bothIteration_up_fails [where k = "2 * j" and err = err and d = "ds j" and dur = dur])
      using a dj cj assms(1)
      by (simp_all add: length_concat_pairs emit_def call_def)
  }
  {
    assume a: "(\<forall>k<j. \<exists>dur. runTest dir F config (world k) = Done (ss k, dur)) \<and>
       runTest dir F config (world j) = Failed err"
    let ?h = "[Line (dir @ replicate (8 - length dir) (CHR '' '')), Line (replicate 18 (CHR ''-''))]"
    let ?r2 = "run\<lparr>printed := printed run @ ?h\<rparr>"
    have st: "runSingleTests dir F config world run = singleLoop dir F config world 0 (?zs, 0, ?r2)"
      using assms(3) by (simp add: runSingleTests_def Let_def emit_def)
    have ln: "length (called ?r2) = 0" using assms(1) by simp
    from a have ok: "\<forall>k. 0 \<le> k \<and> k < j \<longrightarrow>
        (\<exists>dur. runTest dir F config (world k) = Done (ss k, dur))" by simp
    from singleLoop_successes [OF ok assms(2) _ ln, of ?zs 0]
    obtain sl' tt' where
      l: "singleLoop dir F config world 0 (?zs, 0, ?r2) =
        singleLoop dir F config world j (sl', tt',
          ?r2\<lparr>printed := printed ?r2 @ concat (map (\<lambda>k. [SpeedLine (ss k), Sleep]) [0..<j]),
              called := called ?r2 @ replicate (j - 0) dir\<rparr>)"
      by auto
    show "runSingleTests dir F config world run =
       run\<lparr>printed := printed run @ ?h @
              concat (map (\<lambda>k. [SpeedLine (ss k), Sleep]) [0..<j]) @
              [Line (''ERROR: test '' @ FormatInt (word_of_nat (j + 1)) @ '': '' @ err)],
           called := replicate j dir @ [dir]\<rparr>"
      unfolding st l
      apply (subst singleLoop.simps)
      apply (subst singleIteration_fails [where k = j and err = err])
      using a cj assms(1)
      by (simp_all add: emit_def call_def)
  }
qed

text \<open>
  C5, amended.  A run that starts with no test called, with \<open>j\<close> below the count, and
  with a count for which the allocation of the result slices does not panic (on
  linux/amd64 a count of at most \<open>2 ^ 45\<close>; above it the run panics before it prints its
  heading, see \<open>oversized_count_panics\<close> below).  In
  the run of both directions, if the iterations before \<open>j\<close> succeed and the download
  test of iteration \<open>j\<close> fails, the run is: the heading, one result line and one pause
  for each earlier iteration, and the error line; the tests called are the \<open>2 * j\<close>
  earlier ones and the failed download test, so the upload test of iteration \<open>j\<close> and
  every later test is skipped, and no average and no total is printed.  If the upload
  test of iteration \<open>j\<close> fails instead, the same holds with that test as the last one
  called.  runDownloadTests and runUploadTests behave in the same way on their one series.
\<close>

theorem failed_test_ends_the_run:
  assumes "called run = []"
    and "j < nat (sint (Count config))"
    and "\<not> makeslicePanics 8 (Count config)"
  shows
   "((\<forall>k<j. (\<exists>dur. runDownloadTest F config (world (2 * k)) = Done (ds k, dur)) \<and>
            (\<exists>dur. runUploadTest F config (world (2 * k + 1)) = Done (us k, dur))) \<and>
     runDownloadTest F config (world (2 * j)) = Failed err \<longrightarrow>
     runBothTests F config world run =
       run\<lparr>printed := printed run @
              [Line ''down     | up       | Mbps'', Line (replicate 30 (CHR ''-''))] @
              concat (map (\<lambda>k. [BothLine (ds k) (us k), Sleep]) [0..<j]) @
              [Line (''ERROR: download test '' @ FormatInt (word_of_nat (j + 1)) @ '': '' @ err)],
           called := concat (replicate j [''down'', ''up'']) @ [''down'']\<rparr>) \<and>
    ((\<forall>k<j. (\<exists>dur. runDownloadTest F config (world (2 * k)) = Done (ds k, dur)) \<and>
            (\<exists>dur. runUploadTest F config (world (2 * k + 1)) = Done (us k, dur))) \<and>
     (\<exists>dur. runDownloadTest F config (world (2 * j)) = Done (ds j, dur)) \<and>
     runUploadTest F config (world (2 * j + 1)) = Failed err \<longrightarrow>
     runBothTests F config world run =
       run\<lparr>printed := printed run @
              [Line ''down     | up       | Mbps'', Line (replicate 30 (CHR ''-''))] @
              concat (map (\<lambda>k. [BothLine (ds k) (us k), Sleep]) [0..<j]) @
              [Line (''ERROR: upload test '' @ FormatInt (word_of_nat (j + 1)) @ '': '' @ err)],
           called := concat (replicate j [''down'', ''up'']) @ [''down'', ''up'']\<rparr>) \<and>
    ((\<forall>k<j. \<exists>dur. runDownloadTest F config (world k) = Done (ds k, dur)) \<and>
     runDownloadTest F config (world j) = Failed err \<longrightarrow>
     runDownloadTests F config world run =
       run\<lparr>printed := printed run @
              [Line ''down    '', Line (replicate 18 (CHR ''-''))] @
              concat (map (\<lambda>k. [SpeedLine (ds k), Sleep]) [0..<j]) @
              [Line (''ERROR: test '' @ FormatInt (word_of_nat (j + 1)) @ '': '' @ err)],
           called := replicate j ''down'' @ [''down'']\<rparr>) \<and>
    ((\<forall>k<j. \<exists>dur. runUploadTest F config (world k) = Done (us k, dur)) \<and>
     runUploadTest F config (world j) = Failed err \<longrightarrow>
     runUploadTests F config world run =
       run\<lparr>printed := printed run @
              [Line ''up      '', Line (replicate 18 (CHR ''-''))] @
              concat (map (\<lambda>k. [SpeedLine (us k), Sleep]) [0..<j]) @
              [Line (''ERROR: test '' @ FormatInt (word_of_nat (j + 1)) @ '': '' @ err)],
           called := replicate j ''up'' @ [''up'']\<rparr>)"
proof -
  note g = failed_test_general [OF assms, of F world ds us err]
  have pad: "''down'' @ replicate (8 - length ''down'') (CHR '' '') = ''down    ''"
    "''up'' @ replicate (8 - length ''up'') (CHR '' '') = ''up      ''"
    by (simp_all add: numeral_eq_Suc)
  have d: "(\<forall>k<j. \<exists>dur. runDownloadTest F config (world k) = Done (ds k, dur)) \<and>
     runDownloadTest F config (world j) = Failed err \<longrightarrow>
     runDownloadTests F config world run =
       run\<lparr>printed := printed run @
              [Line ''down    '', Line (replicate 18 (CHR ''-''))] @
              concat (map (\<lambda>k. [SpeedLine (ds k), Sleep]) [0..<j]) @
              [Line (''ERROR: test '' @ FormatInt (word_of_nat (j + 1)) @ '': '' @ err)],
           called := replicate j ''down'' @ [''down'']\<rparr>"
    using conjunct2 [OF conjunct2 [OF g [of "''down''" ds]]]
    unfolding runDownloadTests_def runTest_def pad by simp
  have u: "(\<forall>k<j. \<exists>dur. runUploadTest F config (world k) = Done (us k, dur)) \<and>
     runUploadTest F config (world j) = Failed err \<longrightarrow>
     runUploadTests F config world run =
       run\<lparr>printed := printed run @
              [Line ''up      '', Line (replicate 18 (CHR ''-''))] @
              concat (map (\<lambda>k. [SpeedLine (us k), Sleep]) [0..<j]) @
              [Line (''ERROR: test '' @ FormatInt (word_of_nat (j + 1)) @ '': '' @ err)],
           called := replicate j ''up'' @ [''up'']\<rparr>"
    using conjunct2 [OF conjunct2 [OF g [of "''up''" us]]]
    unfolding runUploadTests_def runTest_def pad by simp
  show ?thesis
    by (rule conjI [OF conjunct1 [OF g [of "''down''" ds]]
          conjI [OF conjunct1 [OF conjunct2 [OF g [of "''down''" ds]]] conjI [OF d u]]])
qed

lemma speed_80: "speedMbps exact_ops 10000000 1000000000 = 80"
  unfolding speedMbps_def Let_def Seconds_exact by (simp add: exact_ops_def)

lemma answering_fields:
  "NewRequestErr (answering resp) m u = None"
  "Do (answering resp) req = Inr resp"
  by (simp_all add: answering_def)

lemma okResponse_fields:
  "RespStatusCode okResponse = 200" "RespBodyErr okResponse = None"
  "(word_of_nat (length (RespBody okResponse)) :: int64) = 10000000"
  by (simp_all add: okResponse_def)

lemma runDownloadTest_answering:
  "runDownloadTest exact_ops (clientConfig d 10 c) (answering okResponse) = Done (80, 1000000000)"
  by (simp add: runDownloadTest_def Let_def answering_fields okResponse_fields elapsed_answering
      speed_80 StatusOK_int_def)

lemma runUploadTest_answering:
  "runUploadTest exact_ops (clientConfig d 10 c) (answering okResponse) = Done (80, 1000000000)"
proof -
  have s: "Size (clientConfig d 10 c) * 1000000 = 10000000" by (simp add: clientConfig_def)
  show ?thesis
    by (simp add: runUploadTest_def Let_def s answering_fields okResponse_fields elapsed_answering
        speed_80 StatusOK_int_def makeslicePanics_def maxAlloc_def heapAddrBits_def
        word_sless_alt)
qed

lemma runDownloadTest_refusing:
  "runDownloadTest F config refusing = Failed ''download failed: connection refused''"
  by (simp add: runDownloadTest_def refusing_def)

lemma FormatInt_small: "FormatInt 1 = ''1''" "FormatInt 2 = ''2''" "FormatInt 10 = ''10''"
  by (simp_all add: FormatInt_def digits10_small digits10_big digitChar_table)

theorem failed_test_ends_the_run_witness:
  "runBothTests exact_ops (clientConfig ''both'' 10 2) (refusedAt 2)
     \<lparr>printed = [], called = [], panicked = None\<rparr> =
   \<lparr>printed = [Line ''down     | up       | Mbps'', Line (replicate 30 (CHR ''-'')),
               BothLine 80 80, Sleep,
               Line ''ERROR: download test 2: download failed: connection refused''],
    called = [''down'', ''up'', ''down''], panicked = None\<rparr>"
proof -
  let ?c = "clientConfig ''both'' 10 2"
  let ?run = "\<lparr>printed = [], called = [], panicked = None\<rparr> :: real Run"
  have a1: "called ?run = []" by simp
  have a2: "Suc 0 < nat (sint (Count ?c))" by (simp add: clientConfig_def)
  have a3: "\<not> makeslicePanics 8 (Count ?c)"
    by (simp add: clientConfig_def makeslicePanics_def maxAlloc_def heapAddrBits_def word_sless_alt)
  have w: "refusedAt 2 0 = answering okResponse" "refusedAt 2 (Suc 0) = answering okResponse"
    "refusedAt 2 2 = refusing"
    by (simp_all add: refusedAt_def)
  have h: "(\<forall>k<Suc 0. (\<exists>dur. runDownloadTest exact_ops ?c (refusedAt 2 (2 * k)) = Done (80, dur)) \<and>
            (\<exists>dur. runUploadTest exact_ops ?c (refusedAt 2 (2 * k + 1)) = Done (80, dur))) \<and>
     runDownloadTest exact_ops ?c (refusedAt 2 (2 * Suc 0)) = Failed ''download failed: connection refused''"
    by (simp add: w runDownloadTest_answering runUploadTest_answering runDownloadTest_refusing)
  from conjunct1 [OF failed_test_ends_the_run [OF a1 a2 a3, of exact_ops "refusedAt 2" "\<lambda>k. 80" "\<lambda>k. 80"
      "''download failed: connection refused''"]] h
  have "runBothTests exact_ops ?c (refusedAt 2) ?run =
       ?run\<lparr>printed := printed ?run @
              [Line ''down     | up       | Mbps'', Line (replicate 30 (CHR ''-''))] @
              concat (map (\<lambda>k. [BothLine 80 80, Sleep]) [0..<Suc 0]) @
              [Line (''ERROR: download test '' @ FormatInt (word_of_nat (Suc 0 + 1)) @ '': '' @
                 ''download failed: connection refused'')],
           called := concat (replicate (Suc 0) [''down'', ''up'']) @ [''down'']\<rparr>"
    by blast
  then show ?thesis by (simp add: FormatInt_small)
qed

text \<open>
  Outside that bound: a count of \<open>2 ^ 62\<close> passes the validation, and the run of both
  directions panics in \<^verbatim>\<open>make\<close>, with the two lines of runClient printed and no test
  called, whatever the server would answer.
\<close>

lemma oversized_count_panics:
  "validate (clientConfig ''both'' 10 (2 ^ 62)) = None \<and>
   runClient exact_ops (clientConfig ''both'' 10 (2 ^ 62)) world =
     \<lparr>printed = [Line ''Speed Test - 10 MB per run'', Line ''Server: 127.0.0.1:8080'', Line []],
      called = [], panicked = Some ''runtime error: makeslice: len out of range''\<rparr>"
proof -
  let ?c = "clientConfig ''both'' 10 (2 ^ 62)"
  have v: "validate ?c = None"
    by (simp add: validate_def clientConfig_def isValidDirection_def directionBoth_def
        word_sless_alt)
  have p: "makeslicePanics 8 (Count ?c)"
    by (simp add: makeslicePanics_float64 clientConfig_def)
  have r: "runClient exact_ops ?c world =
     \<lparr>printed = [Line ''Speed Test - 10 MB per run'', Line ''Server: 127.0.0.1:8080'', Line []],
      called = [], panicked = Some ''runtime error: makeslice: len out of range''\<rparr>"
    unfolding runClient_def runBothTests_def Let_def
    using p by (simp add: clientConfig_def directionBoth_def emit_def FormatInt_small)
  show ?thesis using v r by simp
qed

text \<open>
  In the same way an upload test of 281474977 MB, the first size whose bytes are more than
  \<open>2 ^ 48\<close>, panics in \<^verbatim>\<open>make\<close> before it builds its request.
\<close>

lemma oversized_upload_panics:
  "runUploadTest F (clientConfig d 281474977 c) t =
     Panic ''runtime error: makeslice: len out of range'' \<and>
   (\<exists>r. runUploadTest F (clientConfig d 281474976 c) (answering okResponse) = Done r)"
  by (simp add: runUploadTest_def Let_def makeslicePanics_def maxAlloc_def heapAddrBits_def
      clientConfig_def answering_def okResponse_def StatusOK_int_def word_sless_alt)

text \<open>
  C5 as stated fails: with direction both and two iterations, the first download test is
  refused.  The run calls no upload test, although every later test would have succeeded;
  the error line is all it prints after the heading.
\<close>

theorem failed_download_prevents_the_uploads:
  "runClient exact_ops (clientConfig ''both'' 10 2) (refusedAt 0) =
     \<lparr>printed = [Line ''Speed Test - 10 MB per run'', Line ''Server: 127.0.0.1:8080'', Line [],
                 Line ''down     | up       | Mbps'', Line (replicate 30 (CHR ''-'')),
                 Line ''ERROR: download test 1: download failed: connection refused''],
      called = [''down''], panicked = None\<rparr> \<and>
   ''up'' \<notin> set (called (runClient exact_ops (clientConfig ''both'' 10 2) (refusedAt 0))) \<and>
   runUploadTest exact_ops (clientConfig ''both'' 10 2) (refusedAt 0 1) = Done (80, 1000000000) \<and>
   runDownloadTest exact_ops (clientConfig ''both'' 10 2) (refusedAt 0 2) = Done (80, 1000000000) \<and>
   runUploadTest exact_ops (clientConfig ''both'' 10 2) (refusedAt 0 3) = Done (80, 1000000000)"
proof -
  let ?c = "clientConfig ''both'' 10 2"
  have w: "refusedAt 0 0 = refusing" "refusedAt 0 (Suc 0) = answering okResponse"
    "refusedAt 0 2 = answering okResponse" "refusedAt 0 3 = answering okResponse"
    by (simp_all add: refusedAt_def)
  have c: "Direction ?c = directionBoth" "Size ?c = 10" "Server ?c = ''127.0.0.1:8080''"
    "\<not> makeslicePanics 8 (Count ?c)" "(0 :: int) < sint (Count ?c)"
    by (simp_all add: clientConfig_def directionBoth_def makeslicePanics_def maxAlloc_def
        heapAddrBits_def word_sless_alt)
  have it: "bothIteration exact_ops ?c (refusedAt 0) 0 (dsl, usl, tt, run) =
     Return (emit (call run ''down'')
       (Line (''ERROR: download test '' @ FormatInt (word_of_nat (0 + 1)) @ '': '' @
          ''download failed: connection refused'')))" if "length (called run) = 0" for dsl usl tt run
    using that by (intro bothIteration_down_fails [where k = 0]) (simp_all add: w runDownloadTest_refusing)
  have r: "runClient exact_ops ?c (refusedAt 0) =
     \<lparr>printed = [Line ''Speed Test - 10 MB per run'', Line ''Server: 127.0.0.1:8080'', Line [],
                 Line ''down     | up       | Mbps'', Line (replicate 30 (CHR ''-'')),
                 Line ''ERROR: download test 1: download failed: connection refused''],
      called = [''down''], panicked = None\<rparr>"
    unfolding runClient_def runBothTests_def Let_def
    apply (simp add: c)
    apply (subst bothLoop.simps)
    apply (subst it)
    by (simp_all add: c emit_def call_def FormatInt_small)
  show ?thesis
    by (simp add: r w runDownloadTest_answering runUploadTest_answering)
qed

section \<open>Requests in parallel\<close>

lemma step_simps:
  "t < length ps \<Longrightarrow>
   step \<lparr>shared = s, threads = ps\<rparr> t =
     \<lparr>shared = fst (threadStep s (ps ! t)), threads = ps[t := snd (threadStep s (ps ! t))]\<rparr>"
  by (simp add: step_def)

text \<open>
  C9.  Two requests, on a server that has served nothing.  The first one increments the
  counter, loads 1, raises the peak to 1 and starts its transfer.  The second one
  increments the counter to 2 and is then delayed until the first one has finished and
  decremented; only then it loads the counter, reads 1, finds the peak at 1 and leaves it.
  The pairs are (currentConcurrent, peakConcurrent) after each step: two requests were in
  flight together, and the peak ends at 1.
\<close>

theorem peak_update_lost:
  "map (\<lambda>sys. (currentConcurrent (shared sys), peakConcurrent (shared sys)))
     (trace (start (stats idleServer) 2) [0, 0, 0, 0, 1, 0, 1, 1, 1, 1]) =
     [(0, 0), (1, 0), (1, 0), (1, 0), (1, 1), (2, 1), (1, 1), (1, 1), (1, 1), (1, 1), (0, 1)] \<and>
   threads (last (trace (start (stats idleServer) 2) [0, 0, 0, 0, 1, 0, 1, 1, 1, 1])) =
     [Finished, Finished]"
  by (simp add: start_def idleServer_def step_simps threadStep_def numeral_2_eq_2
      AddInt64_currentConcurrent_def CompareAndSwapInt64_peakConcurrent_def word_sless_alt)

text \<open>What does hold for every schedule.\<close>

lemma threadStep_peak_mono:
  "peakConcurrent s \<le>s peakConcurrent (fst (threadStep s p))"
  by (cases p)
     (auto simp: threadStep_def AddInt64_currentConcurrent_def
        CompareAndSwapInt64_peakConcurrent_def word_sless_alt word_sle_eq)

lemma step_peak_mono:
  "peakConcurrent (shared sys) \<le>s peakConcurrent (shared (step sys t))"
  by (simp add: step_def threadStep_peak_mono)

lemma count_update:
  "t < length xs \<Longrightarrow>
   length (filter P (xs[t := y])) + (if P (xs ! t) then 1 else 0) =
   length (filter P xs) + (if P y then 1 else 0)"
proof (induction xs arbitrary: t)
  case Nil
  then show ?case by simp
next
  case (Cons x xs)
  then show ?case by (cases t) auto
qed

lemma threadStep_inFlight:
  "currentConcurrent (fst (threadStep s p)) + (if inFlight p then 1 else 0) =
   currentConcurrent s + (if inFlight (snd (threadStep s p)) then 1 else 0)"
  by (cases p)
     (auto simp: threadStep_def inFlight_def AddInt64_currentConcurrent_def
        CompareAndSwapInt64_peakConcurrent_def)

lemma step_count:
  assumes "currentConcurrent (shared sys) = c0 + word_of_nat (length (filter inFlight (threads sys)))"
  shows "currentConcurrent (shared (step sys t)) =
    c0 + word_of_nat (length (filter inFlight (threads (step sys t))))"
proof (cases "t < length (threads sys)")
  case False
  then show ?thesis using assms by (simp add: step_def)
next
  case True
  let ?p = "threads sys ! t"
  let ?q = "snd (threadStep (shared sys) ?p)"
  let ?n = "length (filter inFlight (threads sys))"
  let ?n' = "length (filter inFlight ((threads sys)[t := ?q]))"
  have c: "?n' + (if inFlight ?p then 1 else 0) = ?n + (if inFlight ?q then 1 else 0)"
    using True by (rule count_update)
  have "(word_of_nat (?n' + (if inFlight ?p then 1 else 0)) :: int64) =
        word_of_nat (?n + (if inFlight ?q then 1 else 0))"
    using c by simp
  then have w: "(word_of_nat ?n' :: int64) + (if inFlight ?p then 1 else 0) =
        word_of_nat ?n + (if inFlight ?q then 1 else 0)"
    by (simp split: if_splits)
  have "currentConcurrent (fst (threadStep (shared sys) ?p)) + (if inFlight ?p then 1 else 0) =
      c0 + word_of_nat ?n + (if inFlight ?q then 1 else 0)"
    using threadStep_inFlight [of "shared sys" ?p] assms by simp
  also have "\<dots> = c0 + word_of_nat ?n' + (if inFlight ?p then 1 else 0)"
    using w by (simp add: add.assoc)
  finally have "currentConcurrent (fst (threadStep (shared sys) ?p)) = c0 + word_of_nat ?n'"
    by simp
  then show ?thesis using True by (simp add: step_def)
qed

lemma step_length [simp]: "length (threads (step sys t)) = length (threads sys)"
  by (simp add: step_def)

lemma trace_invariant:
  assumes "\<And>sys t. P sys \<Longrightarrow> P (step sys t)" and "P sys"
  shows "\<forall>sys' \<in> set (trace sys sched). P sys'"
  using assms(2)
proof (induction sched arbitrary: sys)
  case Nil
  then show ?case by simp
next
  case (Cons t ts)
  have "P (step sys t)" using assms(1) Cons.prems by blast
  from Cons.IH [OF this] Cons.prems show ?case by simp
qed

text \<open>Whatever the schedule of \<open>K\<close> requests, the counter is the number of requests in
  flight, which is at most \<open>K\<close>.\<close>

theorem currentConcurrent_counts_in_flight:
  "\<forall>sys \<in> set (trace (start s K) sched).
     currentConcurrent (shared sys) =
       currentConcurrent s + word_of_nat (length (filter inFlight (threads sys))) \<and>
     length (filter inFlight (threads sys)) \<le> K"
proof -
  let ?P = "\<lambda>sys. currentConcurrent (shared sys) =
       currentConcurrent s + word_of_nat (length (filter inFlight (threads sys))) \<and>
       length (threads sys) = K"
  have 0: "?P (start s K)" by (simp add: start_def inFlight_def)
  have 1: "\<And>sys t. ?P sys \<Longrightarrow> ?P (step sys t)" using step_count by simp
  have "\<forall>sys \<in> set (trace (start s K) sched). ?P sys"
    using 1 0 by (rule trace_invariant [where P = ?P])
  moreover have "length (filter inFlight (threads sys)) \<le> length (threads sys)" for sys
    by (rule length_filter_le)
  ultimately show ?thesis by metis
qed

text \<open>Along every schedule the stored peak never decreases.\<close>

lemma trace_peak_mono_from:
  "\<forall>sys' \<in> set (trace sys sched). peakConcurrent (shared sys) \<le>s peakConcurrent (shared sys')"
proof (induction sched arbitrary: sys)
  case Nil
  then show ?case by simp
next
  case (Cons t ts)
  have "peakConcurrent (shared sys) \<le>s peakConcurrent (shared (step sys t))"
    by (rule step_peak_mono)
  then show ?case using Cons.IH [of "step sys t"] by (auto intro: signed.order_trans)
qed

theorem peakConcurrent_never_decreases:
  "i \<le> j \<Longrightarrow> j < length (trace sys sched) \<Longrightarrow>
   peakConcurrent (shared (trace sys sched ! i)) \<le>s peakConcurrent (shared (trace sys sched ! j))"
proof (induction sched arbitrary: sys i j)
  case Nil
  then show ?case by simp
next
  case (Cons t ts)
  show ?case
  proof (cases i)
    case 0
    have m: "trace sys (t # ts) ! j \<in> set (trace sys (t # ts))"
      using Cons.prems(2) by (intro nth_mem)
    have a: "trace sys (t # ts) ! 0 = sys" by simp
    show ?thesis unfolding 0 a using m trace_peak_mono_from [of sys "t # ts"] by blast
  next
    case (Suc i')
    then obtain j' where j': "j = Suc j'" using Cons.prems(1) by (cases j) auto
    then show ?thesis using Suc Cons.prems Cons.IH [of i' j' "step sys t"] by simp
  qed
qed

theorem currentConcurrent_counts_in_flight_witness:
  "currentConcurrent (shared (step (step (start (stats idleServer) 2) 0) (Suc 0))) = 2 \<and>
   length (filter inFlight (threads (step (step (start (stats idleServer) 2) 0) (Suc 0)))) = 2"
proof -
  let ?sys = "step (step (start (stats idleServer) 2) 0) (Suc 0)"
  have m: "?sys \<in> set (trace (start (stats idleServer) 2) [0, Suc 0])" by simp
  have t: "threads ?sys = [AtLoadCurrent, AtLoadCurrent]"
    by (simp add: start_def step_simps threadStep_def numeral_2_eq_2)
  have c: "length (filter inFlight (threads ?sys)) = 2"
    by (simp add: t inFlight_def)
  from currentConcurrent_counts_in_flight [of "stats idleServer" 2 "[0, Suc 0]"] m
  have "currentConcurrent (shared ?sys) =
       currentConcurrent (stats idleServer) + word_of_nat (length (filter inFlight (threads ?sys)))"
    by blast
  moreover have "currentConcurrent (stats idleServer) = 0" by (simp add: idleServer_def)
  ultimately have e: "currentConcurrent (shared ?sys) = 2" unfolding c by simp
  show ?thesis using e c by blast
qed

lemma trace_example:
  "trace (start (stats idleServer) 2) [0, 0, 0, 0] ! 4 =
     step (step (step (step (start (stats idleServer) 2) 0) 0) 0) 0"
  by simp

theorem peakConcurrent_never_decreases_witness:
  "peakConcurrent (shared (start (stats idleServer) 2)) = 0 \<and>
   peakConcurrent (shared (step (step (step (step (start (stats idleServer) 2) 0) 0) 0) 0)) = 1 \<and>
   peakConcurrent (shared (start (stats idleServer) 2)) \<le>s
   peakConcurrent (shared (step (step (step (step (start (stats idleServer) 2) 0) 0) 0) 0))"
proof -
  have a: "(0 :: nat) \<le> 4" "4 < length (trace (start (stats idleServer) 2) [0, 0, 0, 0])"
    by simp_all
  have b: "trace (start (stats idleServer) 2) [0, 0, 0, 0] ! 0 = start (stats idleServer) 2"
    by simp
  have c: "peakConcurrent (shared (start (stats idleServer) 2)) = 0"
    by (simp add: start_def idleServer_def)
  have d: "peakConcurrent (shared (step (step (step (step (start (stats idleServer) 2) 0) 0) 0) 0)) = 1"
    by (simp add: start_def idleServer_def step_simps threadStep_def numeral_2_eq_2
      AddInt64_currentConcurrent_def CompareAndSwapInt64_peakConcurrent_def word_sless_alt)
  show ?thesis
    using peakConcurrent_never_decreases [OF a] c d unfolding b trace_example by simp
qed

text \<open>A handler that runs alone goes through the steps of \<open>enterTransfer\<close> and of the
  deferred decrement: the sequential handlers above are the one-request case of the
  interleaving.\<close>

lemma alone_is_sequential:
  "last (trace \<lparr>shared = stats srv, threads = [AtAdd]\<rparr> [0, 0, 0, 0]) =
     \<lparr>shared = stats (enterTransfer srv), threads = [InTransfer]\<rparr> \<and>
   last (trace \<lparr>shared = stats srv, threads = [AtAdd]\<rparr> [0, 0, 0, 0, 0]) =
     \<lparr>shared = stats (deferredDecrement (enterTransfer srv)), threads = [Finished]\<rparr>"
  by (simp add: step_simps threadStep_def enterTransfer_def deferredDecrement_def updatePeak_eq
      CompareAndSwapInt64_peakConcurrent_def AddInt64_currentConcurrent_def Let_def)

end
